theory Spec2Isabelle
  imports Complex_Main
begin

section \<open>JavaScript numbers\<close>

text \<open>
  The grid canvas computes with JavaScript numbers. The model keeps the three
  non-finite values apart from the finite ones and computes on the finite ones
  exactly, as real numbers: pixel offsets and section sizes are integers (or
  half-integers for the grid lines) far below \<open>Number.MAX_SAFE_INTEGER\<close>, the limit
  the documentation of \<open>scrollTo\<close> names, and in that range the arithmetic of
  doubles is exact. Signed zeros are not told apart.
\<close>

datatype number = Fin real | PInf | NInf | NaN

text \<open>\<open>a + b\<close>.\<close>

fun num_add :: "number \<Rightarrow> number \<Rightarrow> number" where
  "num_add NaN _ = NaN"
| "num_add _ NaN = NaN"
| "num_add (Fin a) (Fin b) = Fin (a + b)"
| "num_add PInf NInf = NaN"
| "num_add NInf PInf = NaN"
| "num_add PInf _ = PInf"
| "num_add _ PInf = PInf"
| "num_add NInf _ = NInf"
| "num_add _ NInf = NInf"

text \<open>Unary minus, \<open>-a\<close>.\<close>

fun num_neg :: "number \<Rightarrow> number" where
  "num_neg (Fin a) = Fin (- a)"
| "num_neg PInf = NInf"
| "num_neg NInf = PInf"
| "num_neg NaN = NaN"

text \<open>\<open>a - b\<close>.\<close>

definition num_sub :: "number \<Rightarrow> number \<Rightarrow> number" where
  "num_sub a b = num_add a (num_neg b)"

text \<open>\<open>a < b\<close>: false as soon as one side is \<open>NaN\<close>.\<close>

fun num_lt :: "number \<Rightarrow> number \<Rightarrow> bool" where
  "num_lt NaN _ = False"
| "num_lt _ NaN = False"
| "num_lt (Fin a) (Fin b) = (a < b)"
| "num_lt _ NInf = False"
| "num_lt PInf _ = False"
| "num_lt NInf _ = True"
| "num_lt _ PInf = True"

text \<open>\<open>a > b\<close>, \<open>a >= b\<close> and \<open>a === b\<close> (\<open>NaN\<close> equals nothing).\<close>

definition num_gt :: "number \<Rightarrow> number \<Rightarrow> bool" where
  "num_gt a b = num_lt b a"

definition num_eq :: "number \<Rightarrow> number \<Rightarrow> bool" where
  "num_eq a b = (a \<noteq> NaN \<and> a = b)"

definition num_ge :: "number \<Rightarrow> number \<Rightarrow> bool" where
  "num_ge a b = (num_lt b a \<or> num_eq a b)"

text \<open>
  \<open>Math.round\<close>: the nearest integer, a tie going towards \<open>+\<infinity>\<close>; a non-finite
  argument is returned as it is.
\<close>

definition round_half_up :: "real \<Rightarrow> int" where
  "round_half_up r = \<lfloor>r + 1 / 2\<rfloor>"

fun Math_round :: "number \<Rightarrow> number" where
  "Math_round (Fin r) = Fin (of_int (round_half_up r))"
| "Math_round n = n"

text \<open>\<open>Math.max\<close> of two numbers: \<open>NaN\<close> if either is.\<close>

fun Math_max :: "number \<Rightarrow> number \<Rightarrow> number" where
  "Math_max NaN _ = NaN"
| "Math_max _ NaN = NaN"
| "Math_max a b = (if num_lt a b then b else a)"

text \<open>\<open>Math.abs\<close>.\<close>

fun Math_abs :: "number \<Rightarrow> number" where
  "Math_abs (Fin a) = Fin \<bar>a\<bar>"
| "Math_abs PInf = PInf"
| "Math_abs NInf = PInf"
| "Math_abs NaN = NaN"

text \<open>An integer (a canvas dimension, a section index) as a number.\<close>

definition num_of_int :: "int \<Rightarrow> number" where
  "num_of_int i = Fin (of_int i)"

section \<open>The widget state and its drawing operations\<close>

text \<open>
  The collaborators of the canvas are not part of this file of the repository; the
  canvas reads them through the methods below.

  A \<open>GridHeader\<close> is the section oracle of one axis: \<open>sectionAt\<close> gives the index of
  the section that covers a content offset, a negative index when there is none.
\<close>

record header =
  sectionAt :: "number \<Rightarrow> int"
  sectionPosition :: "int \<Rightarrow> number"
  sectionSize :: "int \<Rightarrow> number"

text \<open>
  \<open>DataModel.ICellData\<close>, the scratch record the model fills for one cell, and the
  \<open>DataModel\<close> itself. \<open>cellData\<close> mutates the record it is given; here it returns
  the updated one. \<open>None\<close> is \<open>null\<close>.
\<close>

record ('v, 'o) celldata =
  data_value :: "'v option"
  data_renderer :: string
  data_options :: "'o option"

record ('v, 'o) datamodel =
  rowCount :: int
  columnCount :: int
  cellData :: "int \<Rightarrow> int \<Rightarrow> ('v, 'o) celldata \<Rightarrow> ('v, 'o) celldata"

text \<open>
  The fields of \<open>GridCanvas\<close>. Of the two canvas elements the state keeps the
  dimensions; their pixels belong to the browser and appear in the section on
  bitmaps. \<open>'r\<close> is the type of cell renderers, \<open>cellRenderers\<close> the map created by
  \<open>createRendererMap\<close> (an object without prototype, so a name is either a key
  that was set or absent). \<open>isVisible\<close> and the measured size of the node come from
  the \<open>Widget\<close> base class.
\<close>

record ('v, 'o, 'r) canvas_state =
  scrollX :: number
  scrollY :: number
  model :: "('v, 'o) datamodel option"
  rowHeader :: "header option"
  columnHeader :: "header option"
  cellRenderers :: "string \<Rightarrow> 'r option"
  canvas_width :: int
  canvas_height :: int
  buffer_width :: int
  buffer_height :: int
  isVisible :: bool
  offsetWidth :: int
  offsetHeight :: int

text \<open>
  What \<open>scrollTo\<close> and \<open>onResize\<close> do to the two canvas elements, in the order they
  do it: an assignment to \<open>width\<close> or \<open>height\<close> of an element, a \<open>drawImage\<close> of one
  element into the context of another (the nine-argument form with source and
  destination rectangles, or the three-argument form with a destination point), or a
  call of the private \<open>_paint\<close> on a dirty rectangle.
\<close>

datatype surface = Canvas | Buffer

datatype op =
    SetWidth surface int
  | SetHeight surface int
  | DrawImage surface surface number number number number number number number number
  | DrawImageAt surface surface number number
  | PaintCall number number number number

section \<open>Scrolling\<close>

text \<open>
  \<open>scrollTo(x, y)\<close>, lines 281 to 380 of \<open>gridcanvas.ts\<close>. The result is the new
  state and the operations performed, oldest first.
\<close>

definition scrollTo ::
  "number \<Rightarrow> number \<Rightarrow> ('v, 'o, 'r) canvas_state \<Rightarrow> ('v, 'o, 'r) canvas_state \<times> op list" where
  "scrollTo x0 y0 s =
    (let x = Math_max (Fin 0) (Math_round x0);
         y = Math_max (Fin 0) (Math_round y0);
         dx = num_sub x (scrollX s);
         dy = num_sub y (scrollY s)
     in
     if num_eq dx (Fin 0) \<and> num_eq dy (Fin 0) then (s, [])
     else
       let s' = s\<lparr>scrollX := x, scrollY := y\<rparr> in
       if \<not> isVisible s' then (s', [])
       else
         let width = num_of_int (canvas_width s');
             height = num_of_int (canvas_height s')
         in
         if num_eq width (Fin 0) \<or> num_eq height (Fin 0) then (s', [])
         else if num_ge (Math_abs dx) width \<or> num_ge (Math_abs dy) height
           then (s', [PaintCall (Fin 0) (Fin 0) width height])
         else
           let (left, right, srcX, dstX, imgW) =
                 (if num_lt dx (Fin 0)
                    then (num_neg dx, Fin 0, Fin 0, num_neg dx, num_sub width (num_neg dx))
                  else if num_gt dx (Fin 0)
                    then (Fin 0, dx, dx, Fin 0, num_sub width dx)
                  else (Fin 0, Fin 0, Fin 0, Fin 0, width));
               (top, bottom, srcY, dstY, imgH) =
                 (if num_lt dy (Fin 0)
                    then (num_neg dy, Fin 0, Fin 0, num_neg dy, num_sub height (num_neg dy))
                  else if num_gt dy (Fin 0)
                    then (Fin 0, dy, dy, Fin 0, num_sub height dy)
                  else (Fin 0, Fin 0, Fin 0, Fin 0, height))
           in
           (s',
            [DrawImage Canvas Canvas srcX srcY imgW imgH dstX dstY imgW imgH]
            @ (if num_gt left (Fin 0) then [PaintCall (Fin 0) (Fin 0) left height] else [])
            @ (if num_gt right (Fin 0)
                 then [PaintCall (num_sub width right) (Fin 0) right height] else [])
            @ (if num_gt top (Fin 0)
                 then [PaintCall left (Fin 0) (num_sub (num_sub width left) right) top]
                 else [])
            @ (if num_gt bottom (Fin 0)
                 then [PaintCall left (num_sub height bottom)
                         (num_sub (num_sub width left) right) bottom]
                 else [])))"

text \<open>\<open>scrollBy(dx, dy)\<close>.\<close>

definition scrollBy ::
  "number \<Rightarrow> number \<Rightarrow> ('v, 'o, 'r) canvas_state \<Rightarrow> ('v, 'o, 'r) canvas_state \<times> op list" where
  "scrollBy dx dy s = scrollTo (num_add (scrollX s) dx) (num_add (scrollY s) dy) s"

section \<open>The paint pipeline\<close>

text \<open>
  \<open>Private.IRegion\<close>: the cells queued for one paint pass, aligned to whole cells.
\<close>

record region =
  rgn_x :: number
  rgn_y :: number
  rgn_width :: number
  rgn_height :: number
  rgn_firstRow :: int
  rgn_firstColumn :: int
  rgn_rowSizes :: "number list"
  rgn_columnSizes :: "number list"

text \<open>\<open>ICellConfig\<close>: what a renderer is told about the cell it paints.\<close>

record ('v, 'o) cellconfig =
  cfg_x :: number
  cfg_y :: number
  cfg_width :: number
  cfg_height :: number
  cfg_row :: int
  cfg_column :: int
  cfg_value :: "'v option"
  cfg_options :: "'o option"

text \<open>
  What \<open>_paint\<close> and the three drawing passes do to the 2D context of the on-screen
  canvas: assignments to its style properties, its path and fill methods, and
  \<open>renderer.paint(gc, config)\<close> on a cell renderer.
\<close>

datatype ('v, 'o, 'r) gcmd =
    FillStyle string
  | FillRect number number number number
  | Save
  | Restore
  | BeginPath
  | Rect number number number number
  | Clip
  | LineWidth number
  | LineCap string
  | StrokeStyle string
  | MoveTo number number
  | LineTo number number
  | Stroke
  | RendererPaint 'r "('v, 'o) cellconfig"

text \<open>\<open>_drawBackground\<close>, lines 651 to 657.\<close>

definition drawBackground :: "region \<Rightarrow> ('v, 'o, 'r) gcmd list" where
  "drawBackground rgn =
     [FillStyle ''white'', FillRect (rgn_x rgn) (rgn_y rgn) (rgn_width rgn) (rgn_height rgn)]"

text \<open>
  The two loops of \<open>_drawGridLines\<close>: the running coordinate is advanced by the size
  of the section and a line is then drawn at it, across the region.
\<close>

fun verticalLines :: "number \<Rightarrow> number \<Rightarrow> number \<Rightarrow> number list \<Rightarrow> ('v, 'o, 'r) gcmd list" where
  "verticalLines x y1 y2 [] = []"
| "verticalLines x y1 y2 (w # colSizes) =
     MoveTo (num_add x w) y1 # LineTo (num_add x w) y2 # verticalLines (num_add x w) y1 y2 colSizes"

fun horizontalLines :: "number \<Rightarrow> number \<Rightarrow> number \<Rightarrow> number list \<Rightarrow> ('v, 'o, 'r) gcmd list" where
  "horizontalLines y x1 x2 [] = []"
| "horizontalLines y x1 x2 (h # rowSizes) =
     MoveTo x1 (num_add y h) # LineTo x2 (num_add y h) # horizontalLines (num_add y h) x1 x2 rowSizes"

text \<open>\<open>_drawGridLines\<close>, lines 662 to 693.\<close>

definition drawGridLines :: "region \<Rightarrow> ('v, 'o, 'r) gcmd list" where
  "drawGridLines rgn =
     [LineWidth (Fin 1), LineCap ''butt'', StrokeStyle ''gray'', BeginPath]
     @ verticalLines (num_sub (rgn_x rgn) (Fin (1 / 2)))
         (rgn_y rgn) (num_add (rgn_y rgn) (rgn_height rgn)) (rgn_columnSizes rgn)
     @ horizontalLines (num_sub (rgn_y rgn) (Fin (1 / 2)))
         (rgn_x rgn) (num_add (rgn_x rgn) (rgn_width rgn)) (rgn_rowSizes rgn)
     @ [Stroke]"

text \<open>
  The scratch \<open>data\<close> record as it is reset before every call of \<open>cellData\<close>, and the
  renderer name the model answers for a cell.
\<close>

definition resetData :: "('v, 'o) celldata" where
  "resetData = \<lparr>data_value = None, data_renderer = ''default'', data_options = None\<rparr>"

definition rendererNameOf :: "('v, 'o) datamodel \<Rightarrow> int \<Rightarrow> int \<Rightarrow> string" where
  "rendererNameOf m row column = data_renderer (cellData m row column resetData)"

text \<open>
  Lines 770 to 774: the renderer is looked up in the map only when the name of the cell
  differs from the name of the last lookup, which is kept with its result.
\<close>

definition fetchRenderer ::
  "(string \<Rightarrow> 'r option) \<Rightarrow> string \<Rightarrow> string \<times> 'r option \<Rightarrow> string \<times> 'r option" where
  "fetchRenderer rs name cache = (if name \<noteq> fst cache then (name, rs name) else cache)"

text \<open>
  The inner loop of \<open>_drawCells\<close> (lines 749 to 797), over the rows of one column.
  \<open>row\<close> is \<open>j + firstRow\<close> for the head of the remaining row sizes and \<open>y\<close> the
  running coordinate. The pair \<open>(rendererName, renderer)\<close> of the last lookup is
  threaded through, since both variables live outside the two loops. Each
  \<open>continue\<close> goes on with the next row without reaching \<open>y += height\<close>.
\<close>

fun drawColumn ::
  "('v, 'o) datamodel \<Rightarrow> (string \<Rightarrow> 'r option) \<Rightarrow> number \<Rightarrow> number \<Rightarrow> int \<Rightarrow>
   int \<Rightarrow> number \<Rightarrow> number list \<Rightarrow> string \<times> 'r option \<Rightarrow>
   ('v, 'o, 'r) gcmd list \<times> (string \<times> 'r option)" where
  "drawColumn m rs x width column row y [] cache = ([], cache)"
| "drawColumn m rs x width column row y (height # rowSizes) cache =
     (if num_eq height (Fin 0) then drawColumn m rs x width column (row + 1) y rowSizes cache
      else
        let data = cellData m row column resetData;
            cache' = fetchRenderer rs (data_renderer data) cache
        in
        case snd cache' of
          None \<Rightarrow> drawColumn m rs x width column (row + 1) y rowSizes cache'
        | Some renderer \<Rightarrow>
            let config = \<lparr>cfg_x = x, cfg_y = y, cfg_width = width, cfg_height = height,
                           cfg_row = row, cfg_column = column,
                           cfg_value = data_value data, cfg_options = data_options data\<rparr>;
                rest = drawColumn m rs x width column (row + 1) (num_add y height) rowSizes cache'
            in (RendererPaint renderer config # fst rest, snd rest))"

text \<open>
  The outer loop (lines 735 to 801), over the columns; \<open>column\<close> is \<open>i + firstCol\<close>
  for the head of the remaining column sizes.
\<close>

fun drawColumns ::
  "('v, 'o) datamodel \<Rightarrow> (string \<Rightarrow> 'r option) \<Rightarrow> number \<Rightarrow> int \<Rightarrow> number list \<Rightarrow>
   int \<Rightarrow> number \<Rightarrow> number list \<Rightarrow> string \<times> 'r option \<Rightarrow>
   ('v, 'o, 'r) gcmd list \<times> (string \<times> 'r option)" where
  "drawColumns m rs startY firstRow rowSizes column x [] cache = ([], cache)"
| "drawColumns m rs startY firstRow rowSizes column x (width # colSizes) cache =
     (if num_eq width (Fin 0)
        then drawColumns m rs startY firstRow rowSizes (column + 1) x colSizes cache
      else
        let col = drawColumn m rs x width column firstRow startY rowSizes cache;
            rest = drawColumns m rs startY firstRow rowSizes (column + 1) (num_add x width)
                     colSizes (snd col)
        in (fst col @ fst rest, snd rest))"

text \<open>
  \<open>_drawCells\<close>, lines 698 to 802, for the data model \<open>m\<close> and the renderer map
  \<open>rs\<close> of the canvas. The lookup cache starts as the empty name and no renderer.
\<close>

definition drawCells ::
  "('v, 'o) datamodel \<Rightarrow> (string \<Rightarrow> 'r option) \<Rightarrow> region \<Rightarrow> ('v, 'o, 'r) gcmd list" where
  "drawCells m rs rgn =
     fst (drawColumns m rs (rgn_y rgn) (rgn_firstRow rgn) (rgn_rowSizes rgn)
            (rgn_firstColumn rgn) (rgn_x rgn) (rgn_columnSizes rgn) ([], None))"

text \<open>
  The size loops of \<open>_paint\<close> (lines 607 to 618): the sizes of the sections \<open>i1\<close>
  to \<open>i2\<close>, in order, and their total, added up from zero in that order.
\<close>

definition sectionSizes :: "header \<Rightarrow> int \<Rightarrow> int \<Rightarrow> number list" where
  "sectionSizes h i1 i2 =
     map (\<lambda>i. sectionSize h (i1 + int i)) [0 ..< nat (i2 - i1 + 1)]"

definition total :: "number list \<Rightarrow> number" where
  "total sizes = foldl num_add (Fin 0) sizes"

text \<open>
  The first half of \<open>_paint\<close> after the fill (lines 560 to 618): the region of the
  cells that a dirty rectangle covers, or \<open>None\<close> where \<open>_paint\<close> returns early.
\<close>

definition resolveRegion ::
  "('v, 'o, 'r) canvas_state \<Rightarrow> number \<Rightarrow> number \<Rightarrow> number \<Rightarrow> number \<Rightarrow> region option" where
  "resolveRegion s rx ry rw rh =
     (case (model s, rowHeader s, columnHeader s) of
        (Some m, Some rowHdr, Some colHdr) \<Rightarrow>
          if rowCount m = 0 \<or> columnCount m = 0 then None
          else
            let i1 = sectionAt colHdr (num_add rx (scrollX s));
                j1 = sectionAt rowHdr (num_add ry (scrollY s))
            in
            if i1 < 0 \<or> j1 < 0 then None
            else
              let i2 = sectionAt colHdr (num_add (num_add rx rw) (scrollX s));
                  j2 = sectionAt rowHdr (num_add (num_add ry rh) (scrollY s));
                  i2' = (if i2 < 0 then columnCount m - 1 else i2);
                  j2' = (if j2 < 0 then rowCount m - 1 else j2);
                  columnSizes = sectionSizes colHdr i1 i2';
                  rowSizes = sectionSizes rowHdr j1 j2'
              in
              Some \<lparr>rgn_x = num_sub (sectionPosition colHdr i1) (scrollX s),
                    rgn_y = num_sub (sectionPosition rowHdr j1) (scrollY s),
                    rgn_width = total columnSizes, rgn_height = total rowSizes,
                    rgn_firstRow = j1, rgn_firstColumn = i1,
                    rgn_rowSizes = rowSizes, rgn_columnSizes = columnSizes\<rparr>
      | _ \<Rightarrow> None)"

text \<open>
  \<open>_paint(rx, ry, rw, rh)\<close>, lines 552 to 646: the commands sent to the context of
  the on-screen canvas, oldest first. \<open>_drawCells\<close> reads \<open>this._model\<close>, which is
  present whenever a region was resolved.
\<close>

definition paint ::
  "('v, 'o, 'r) canvas_state \<Rightarrow> number \<Rightarrow> number \<Rightarrow> number \<Rightarrow> number \<Rightarrow> ('v, 'o, 'r) gcmd list" where
  "paint s rx ry rw rh =
     [FillStyle ''#D4D4D4'', FillRect rx ry rw rh]
     @ (case (resolveRegion s rx ry rw rh, model s) of
          (Some rgn, Some m) \<Rightarrow>
            [Save, BeginPath, Rect rx ry rw rh, Clip]
            @ drawBackground rgn
            @ drawGridLines rgn
            @ drawCells m (cellRenderers s) rgn
            @ [Restore]
        | _ \<Rightarrow> [])"

section \<open>Resizing\<close>

text \<open>
  A \<open>ResizeMessage\<close> carries the new size of the widget, \<open>-1\<close> standing for a
  dimension that is not known. The sizes are finite numbers; they need not be whole.
\<close>

record resize_message =
  msg_width :: real
  msg_height :: real

text \<open>
  \<open>onResize(msg)\<close>, lines 478 to 541. The \<open>width\<close> and \<open>height\<close> of a canvas element
  are unsigned in the DOM and the sizes that reach the handler are not negative; the
  model stores the rounded size as it is and does not say what the DOM would make of a
  negative one. The assignments to the CSS size of the canvas are left out.
\<close>

definition onResize ::
  "resize_message \<Rightarrow> ('v, 'o, 'r) canvas_state \<Rightarrow> ('v, 'o, 'r) canvas_state \<times> op list" where
  "onResize msg s =
     (if \<not> isVisible s then (s, [])
      else
        let width = round_half_up
              (if msg_width msg = - 1 then of_int (offsetWidth s) else msg_width msg);
            height = round_half_up
              (if msg_height msg = - 1 then of_int (offsetHeight s) else msg_height msg);
            oldWidth = canvas_width s;
            oldHeight = canvas_height s;
            needBlit = (oldWidth > 0 \<and> oldHeight > 0 \<and> width > 0 \<and> height > 0);
            right = max 0 (width - oldWidth);
            bottom = max 0 (height - oldHeight)
        in
        (s\<lparr>buffer_width := width, buffer_height := height,
           canvas_width := width, canvas_height := height\<rparr>,
         [SetWidth Buffer width, SetHeight Buffer height]
         @ (if needBlit then [DrawImageAt Buffer Canvas (Fin 0) (Fin 0)] else [])
         @ [SetWidth Canvas width, SetHeight Canvas height]
         @ (if needBlit then [DrawImageAt Canvas Buffer (Fin 0) (Fin 0)] else [])
         @ (if right > 0
              then [PaintCall (num_of_int oldWidth) (Fin 0) (num_of_int right) (num_of_int height)]
              else [])
         @ (if bottom > 0
              then [PaintCall (Fin 0) (num_of_int oldHeight)
                      (num_of_int (width - right)) (num_of_int bottom)]
              else [])))"

section \<open>Rectangles and bitmaps\<close>

text \<open>
  The points of the canvas plane inside the rectangle \<open>(x, y, w, h)\<close>, left and top
  edges included; a negative extent reaches to the left or upwards, as it does for the
  canvas methods, and a rectangle with a non-finite argument has no points.
\<close>

definition in_span :: "real \<Rightarrow> real \<Rightarrow> real \<Rightarrow> bool" where
  "in_span a d p = ((a \<le> p \<and> p < a + d) \<or> (a + d \<le> p \<and> p < a))"

fun rect :: "number \<Rightarrow> number \<Rightarrow> number \<Rightarrow> number \<Rightarrow> (real \<times> real) set" where
  "rect (Fin x) (Fin y) (Fin w) (Fin h) = {(p, q). in_span x w p \<and> in_span y h q}"
| "rect _ _ _ _ = {}"

text \<open>
  The dirty rectangle of a \<open>_paint\<close> call and the destination rectangle of a
  \<open>drawImage\<close>, as sets of points.
\<close>

fun painted :: "op \<Rightarrow> (real \<times> real) set" where
  "painted (PaintCall x y w h) = rect x y w h"
| "painted _ = {}"

fun blit_target :: "op \<Rightarrow> (real \<times> real) set" where
  "blit_target (DrawImage dst src sx sy sw sh dx dy dw dh) = rect dx dy dw dh"
| "blit_target _ = {}"

fun is_PaintCall :: "op \<Rightarrow> bool" where
  "is_PaintCall (PaintCall x y w h) = True"
| "is_PaintCall _ = False"

fun pairwise_disjoint :: "'a set list \<Rightarrow> bool" where
  "pairwise_disjoint [] = True"
| "pairwise_disjoint (A # As) = ((\<forall>B \<in> set As. A \<inter> B = {}) \<and> pairwise_disjoint As)"

text \<open>
  The bitmap of a canvas element: its size and its pixels, \<open>None\<close> for a transparent
  one. Pixels are fully opaque or fully transparent here, so that drawing a pixel over
  another one replaces it unless the drawn pixel is transparent.
\<close>

record 'c bitmap =
  bm_width :: int
  bm_height :: int
  bm_pixel :: "int \<times> int \<Rightarrow> 'c option"

record 'c surfaces =
  on_screen :: "'c bitmap"
  off_screen :: "'c bitmap"

definition bitmap_of :: "surface \<Rightarrow> 'c surfaces \<Rightarrow> 'c bitmap" where
  "bitmap_of t \<sigma> = (case t of Canvas \<Rightarrow> on_screen \<sigma> | Buffer \<Rightarrow> off_screen \<sigma>)"

definition set_bitmap :: "surface \<Rightarrow> 'c bitmap \<Rightarrow> 'c surfaces \<Rightarrow> 'c surfaces" where
  "set_bitmap t b \<sigma> = (case t of Canvas \<Rightarrow> \<sigma>\<lparr>on_screen := b\<rparr> | Buffer \<Rightarrow> \<sigma>\<lparr>off_screen := b\<rparr>)"

definition inside :: "'c bitmap \<Rightarrow> int \<times> int \<Rightarrow> bool" where
  "inside b p = (0 \<le> fst p \<and> fst p < bm_width b \<and> 0 \<le> snd p \<and> snd p < bm_height b)"

definition over :: "'c option \<Rightarrow> 'c option \<Rightarrow> 'c option" where
  "over src dst = (case src of None \<Rightarrow> dst | Some c \<Rightarrow> Some c)"

text \<open>
  \<open>drawImage\<close> without scaling and at whole pixel offsets: the \<open>w\<close> by \<open>h\<close> pixels of
  \<open>src\<close> at \<open>(sx, sy)\<close> are drawn over the pixels of \<open>dst\<close> at \<open>(dx, dy)\<close>, as far as
  they exist in both bitmaps.
\<close>

definition drawImage_px ::
  "'c bitmap \<Rightarrow> int \<Rightarrow> int \<Rightarrow> int \<Rightarrow> int \<Rightarrow> int \<Rightarrow> int \<Rightarrow> 'c bitmap \<Rightarrow> 'c bitmap" where
  "drawImage_px src sx sy w h dx dy dst =
     dst\<lparr>bm_pixel := (\<lambda>(i, j).
       if inside dst (i, j) \<and> dx \<le> i \<and> i < dx + w \<and> dy \<le> j \<and> j < dy + h \<and>
          inside src (i - dx + sx, j - dy + sy)
       then over (bm_pixel src (i - dx + sx, j - dy + sy)) (bm_pixel dst (i, j))
       else bm_pixel dst (i, j))\<rparr>"

text \<open>A number that is a whole number.\<close>

fun int_of :: "number \<Rightarrow> int option" where
  "int_of (Fin r) = (if r = of_int \<lfloor>r\<rfloor> then Some \<lfloor>r\<rfloor> else None)"
| "int_of _ = None"

text \<open>
  The pixels that a rectangle reaches: pixel \<open>(i, j)\<close> is the unit square at \<open>(i, j)\<close>.
\<close>

definition overlaps :: "real \<Rightarrow> real \<Rightarrow> int \<Rightarrow> bool" where
  "overlaps a d i = (d \<noteq> 0 \<and> min a (a + d) < of_int i + 1 \<and> of_int i < max a (a + d))"

fun covers :: "number \<Rightarrow> number \<Rightarrow> number \<Rightarrow> number \<Rightarrow> int \<times> int \<Rightarrow> bool" where
  "covers (Fin x) (Fin y) (Fin w) (Fin h) (i, j) = (overlaps x w i \<and> overlaps y h j)"
| "covers _ _ _ _ _ = False"

text \<open>
  The effect of one operation on the two bitmaps. Assigning to \<open>width\<close> or \<open>height\<close>
  of a canvas element replaces its bitmap by a transparent one of the new size, also
  when the size does not change. \<open>_paint\<close> fills its dirty rectangle and clips all
  further drawing to it, so a \<open>_paint\<close> call changes pixels of the on-screen canvas
  that the rectangle reaches and no others; what it leaves in them is the parameter
  \<open>content\<close>, a function of the bitmap before the call, the rectangle and the pixel. A
  \<open>drawImage\<close> that scales or is not aligned to whole pixels resamples the image, which
  is not modelled: the result is then \<open>None\<close>.
\<close>

fun exec ::
  "('c bitmap \<Rightarrow> number \<Rightarrow> number \<Rightarrow> number \<Rightarrow> number \<Rightarrow> int \<times> int \<Rightarrow> 'c option) \<Rightarrow>
   op \<Rightarrow> 'c surfaces \<Rightarrow> 'c surfaces option" where
  "exec content (SetWidth t w) \<sigma> =
     Some (set_bitmap t \<lparr>bm_width = w, bm_height = bm_height (bitmap_of t \<sigma>),
                         bm_pixel = (\<lambda>p. None)\<rparr> \<sigma>)"
| "exec content (SetHeight t h) \<sigma> =
     Some (set_bitmap t \<lparr>bm_width = bm_width (bitmap_of t \<sigma>), bm_height = h,
                         bm_pixel = (\<lambda>p. None)\<rparr> \<sigma>)"
| "exec content (DrawImageAt dst src dx dy) \<sigma> =
     (case (int_of dx, int_of dy) of
        (Some a, Some b) \<Rightarrow>
          Some (set_bitmap dst
                  (drawImage_px (bitmap_of src \<sigma>) 0 0
                     (bm_width (bitmap_of src \<sigma>)) (bm_height (bitmap_of src \<sigma>)) a b
                     (bitmap_of dst \<sigma>)) \<sigma>)
      | _ \<Rightarrow> None)"
| "exec content (DrawImage dst src sx sy sw sh dx dy dw dh) \<sigma> =
     (case (int_of sx, int_of sy, int_of sw, int_of sh, int_of dx, int_of dy) of
        (Some sx', Some sy', Some w, Some h, Some dx', Some dy') \<Rightarrow>
          if sw = dw \<and> sh = dh \<and> 0 \<le> w \<and> 0 \<le> h
          then Some (set_bitmap dst
                       (drawImage_px (bitmap_of src \<sigma>) sx' sy' w h dx' dy' (bitmap_of dst \<sigma>)) \<sigma>)
          else None
      | _ \<Rightarrow> None)"
| "exec content (PaintCall x y w h) \<sigma> =
     Some (\<sigma>\<lparr>on_screen := (on_screen \<sigma>)\<lparr>bm_pixel := (\<lambda>p.
       if inside (on_screen \<sigma>) p \<and> covers x y w h p
       then content (on_screen \<sigma>) x y w h p
       else bm_pixel (on_screen \<sigma>) p)\<rparr>\<rparr>)"

fun run ::
  "('c bitmap \<Rightarrow> number \<Rightarrow> number \<Rightarrow> number \<Rightarrow> number \<Rightarrow> int \<times> int \<Rightarrow> 'c option) \<Rightarrow>
   op list \<Rightarrow> 'c surfaces \<Rightarrow> 'c surfaces option" where
  "run content [] \<sigma> = Some \<sigma>"
| "run content (e # es) \<sigma> =
     (case exec content e \<sigma> of None \<Rightarrow> None | Some \<sigma>' \<Rightarrow> run content es \<sigma>')"

section \<open>Reading a command list\<close>

text \<open>
  The line segments of a command list (a \<open>moveTo\<close> followed by a \<open>lineTo\<close>), and the
  cells handed to a renderer with the position they were given: row, column, x, y.
\<close>

fun lineSegments ::
  "('v, 'o, 'r) gcmd list \<Rightarrow> ((number \<times> number) \<times> (number \<times> number)) list" where
  "lineSegments (MoveTo x1 y1 # LineTo x2 y2 # cs) = ((x1, y1), (x2, y2)) # lineSegments cs"
| "lineSegments (c # cs) = lineSegments cs"
| "lineSegments [] = []"

fun paintedCells :: "('v, 'o, 'r) gcmd list \<Rightarrow> (int \<times> int \<times> number \<times> number) list" where
  "paintedCells (RendererPaint r cfg # cs) =
     (cfg_row cfg, cfg_column cfg, cfg_x cfg, cfg_y cfg) # paintedCells cs"
| "paintedCells (c # cs) = paintedCells cs"
| "paintedCells [] = []"


text \<open>
  The cells of a region that the two loops of \<open>_drawCells\<close> do not skip for a size of
  zero, and the order in which the loops reach two cells \<open>(row, column)\<close>: column by
  column, and by rows within a column.
\<close>

definition processed :: "region \<Rightarrow> int \<Rightarrow> int \<Rightarrow> bool" where
  "processed rgn row column =
     ((\<exists>j < length (rgn_rowSizes rgn).
         row = rgn_firstRow rgn + int j \<and> \<not> num_eq (rgn_rowSizes rgn ! j) (Fin 0)) \<and>
      (\<exists>i < length (rgn_columnSizes rgn).
         column = rgn_firstColumn rgn + int i \<and> \<not> num_eq (rgn_columnSizes rgn ! i) (Fin 0)))"

definition earlier :: "int \<times> int \<Rightarrow> int \<times> int \<Rightarrow> bool" where
  "earlier a b = (snd a < snd b \<or> (snd a = snd b \<and> fst a < fst b))"

section \<open>Example states\<close>

text \<open>
  A visible canvas of 100 by 60 pixels with nothing attached, scrolled to the origin.
\<close>

definition exampleCanvas :: "(nat, nat, nat) canvas_state" where
  "exampleCanvas =
     \<lparr>scrollX = Fin 0, scrollY = Fin 0, model = None, rowHeader = None, columnHeader = None,
      cellRenderers = (\<lambda>n. None), canvas_width = 100, canvas_height = 60,
      buffer_width = 100, buffer_height = 60, isVisible = True,
      offsetWidth = 100, offsetHeight = 60\<rparr>"

text \<open>
  Modelled from the spec: the section oracle of one axis (\<open>GridHeader\<close>, whose file is
  not among the sources), for \<open>n\<close> sections of the same size \<open>sz\<close> laid out from offset
  zero. \<open>sectionAt\<close> answers \<open>-1\<close> for an offset that no section covers. It is used in
  the examples only.
\<close>

definition uniformHeader :: "real \<Rightarrow> int \<Rightarrow> header" where
  "uniformHeader sz n =
     \<lparr>sectionAt = (\<lambda>p. case p of
          Fin r \<Rightarrow> if 0 \<le> r \<and> r < sz * of_int n then \<lfloor>r / sz\<rfloor> else - 1
        | _ \<Rightarrow> - 1),
      sectionPosition = (\<lambda>i. Fin (of_int i * sz)),
      sectionSize = (\<lambda>i. Fin sz)\<rparr>"

text \<open>
  A data model of the given extent that sets the renderer name of each cell and nothing
  else.
\<close>

definition namedModel :: "int \<Rightarrow> int \<Rightarrow> (int \<Rightarrow> int \<Rightarrow> string) \<Rightarrow> (nat, nat) datamodel" where
  "namedModel rows cols name =
     \<lparr>rowCount = rows, columnCount = cols,
      cellData = (\<lambda>row column data. data\<lparr>data_renderer := name row column\<rparr>)\<rparr>"

text \<open>
  The example of the specification: three rows of height 20 and two columns of width
  50 on the canvas of 100 by 60 pixels, every cell drawn by the default renderer
  (renderer \<open>0\<close>). Then the same grid with a model of zero rows, and with a model that
  names a renderer nobody registered for the cells of the first row.
\<close>

definition exampleGrid :: "(nat, nat, nat) canvas_state" where
  "exampleGrid = exampleCanvas
     \<lparr>model := Some (namedModel 3 2 (\<lambda>row column. ''default'')),
      rowHeader := Some (uniformHeader 20 3),
      columnHeader := Some (uniformHeader 50 2),
      cellRenderers := (\<lambda>n. if n = ''default'' then Some 0 else None)\<rparr>"

definition emptyGrid :: "(nat, nat, nat) canvas_state" where
  "emptyGrid = exampleGrid\<lparr>model := Some (namedModel 0 2 (\<lambda>row column. ''default''))\<rparr>"

definition gridWithMissingRenderer :: "(nat, nat, nat) canvas_state" where
  "gridWithMissingRenderer = exampleGrid
     \<lparr>model := Some (namedModel 3 2
        (\<lambda>row column. if row = 0 then ''missing'' else ''default''))\<rparr>"

text \<open>
  One column of three rows whose first and last cells carry the empty renderer name,
  with renderers registered under the empty name (\<open>7\<close>) and under \<open>a\<close> (\<open>8\<close>).
\<close>

definition emptyNameColumn :: region where
  "emptyNameColumn =
     \<lparr>rgn_x = Fin 0, rgn_y = Fin 0, rgn_width = Fin 50, rgn_height = Fin 60,
      rgn_firstRow = 0, rgn_firstColumn = 0,
      rgn_rowSizes = [Fin 20, Fin 20, Fin 20], rgn_columnSizes = [Fin 50]\<rparr>"

definition emptyNameModel :: "(nat, nat) datamodel" where
  "emptyNameModel = namedModel 3 1 (\<lambda>row column. if row = 1 then ''a'' else '''')"

definition emptyNameRenderers :: "string \<Rightarrow> nat option" where
  "emptyNameRenderers name =
     (if name = '''' then Some 7 else if name = ''a'' then Some 8 else None)"

text \<open>
  The two bitmaps of the canvas of 100 by 60 pixels after a fit and a full paint: every
  pixel of the on-screen canvas painted (colour \<open>1\<close>), the buffer still blank. And a
  paint pipeline that leaves transparent pixels, for running the examples.
\<close>

definition paintedSurfaces :: "nat surfaces" where
  "paintedSurfaces =
     \<lparr>on_screen = \<lparr>bm_width = 100, bm_height = 60,
                    bm_pixel = (\<lambda>p. if 0 \<le> fst p \<and> fst p < 100 \<and> 0 \<le> snd p \<and> snd p < 60
                                    then Some 1 else None)\<rparr>,
      off_screen = \<lparr>bm_width = 100, bm_height = 60, bm_pixel = (\<lambda>p. None)\<rparr>\<rparr>"

definition noContent :: "nat bitmap \<Rightarrow> number \<Rightarrow> number \<Rightarrow> number \<Rightarrow> number \<Rightarrow> int \<times> int \<Rightarrow> nat option" where
  "noContent b x y w h p = None"

section \<open>Properties of scrolling\<close>

lemma num_sub_Fin [simp]: "num_sub (Fin a) (Fin b) = Fin (a - b)"
  by (simp add: num_sub_def)

lemma num_lt_abs_fin:
  "num_lt (Math_abs d) (num_of_int W) \<longleftrightarrow> (\<exists>a. d = Fin a \<and> \<bar>a\<bar> < of_int W)"
  by (cases d) (simp_all add: num_of_int_def)

lemma num_ge_abs_pos:
  "0 < W \<Longrightarrow> num_ge (Math_abs d) (num_of_int W) \<Longrightarrow> \<not> num_eq d (Fin 0)"
  by (cases d) (auto simp add: num_of_int_def num_ge_def num_eq_def)


lemma num_sub_eq_zero: "num_eq (num_sub a b) (Fin 0) \<Longrightarrow> a = b"
  by (cases a; cases b) (simp_all add: num_eq_def num_sub_def)

text \<open>
  C3: whatever numbers are requested (negative, fractional, infinite or \<open>NaN\<close>), and
  whatever the visibility and the size of the surface, \<open>scrollTo\<close> returns and the
  stored scroll position is then \<open>(Math.max(0, Math.round(x)), Math.max(0,
  Math.round(y)))\<close>.
\<close>

theorem scrollTo_stores_coerced_position:
  "scrollX (fst (scrollTo x y s)) = Math_max (Fin 0) (Math_round x) \<and>
   scrollY (fst (scrollTo x y s)) = Math_max (Fin 0) (Math_round y)"
proof (cases "num_eq (num_sub (Math_max (Fin 0) (Math_round x)) (scrollX s)) (Fin 0) \<and>
              num_eq (num_sub (Math_max (Fin 0) (Math_round y)) (scrollY s)) (Fin 0)")
  case True
  then have "Math_max (Fin 0) (Math_round x) = scrollX s"
    and "Math_max (Fin 0) (Math_round y) = scrollY s"
    by (auto dest: num_sub_eq_zero)
  with True show ?thesis
    by (simp add: scrollTo_def Let_def)
next
  case False
  then show ?thesis
    by (auto simp add: scrollTo_def Let_def split: prod.splits)
qed

lemma scrollTo_blit_ops:
  assumes vis: "isVisible s"
    and area: "0 < canvas_width s" "0 < canvas_height s"
    and dx: "num_sub (Math_max (Fin 0) (Math_round x)) (scrollX s) = Fin a"
    and dy: "num_sub (Math_max (Fin 0) (Math_round y)) (scrollY s) = Fin b"
    and small: "\<bar>a\<bar> < W" "\<bar>b\<bar> < H"
    and nz: "a \<noteq> 0 \<or> b \<noteq> 0"
    and W: "W = of_int (canvas_width s)" and H: "H = of_int (canvas_height s)"
  shows "snd (scrollTo x y s) =
     DrawImage Canvas Canvas (Fin (max a 0)) (Fin (max b 0)) (Fin (W - \<bar>a\<bar>)) (Fin (H - \<bar>b\<bar>))
        (Fin (max (- a) 0)) (Fin (max (- b) 0)) (Fin (W - \<bar>a\<bar>)) (Fin (H - \<bar>b\<bar>))
     # (if a < 0 then [PaintCall (Fin 0) (Fin 0) (Fin (- a)) (Fin H)] else [])
     @ (if 0 < a then [PaintCall (Fin (W - a)) (Fin 0) (Fin a) (Fin H)] else [])
     @ (if b < 0 then [PaintCall (Fin (max (- a) 0)) (Fin 0) (Fin (W - \<bar>a\<bar>)) (Fin (- b))] else [])
     @ (if 0 < b then [PaintCall (Fin (max (- a) 0)) (Fin (H - b)) (Fin (W - \<bar>a\<bar>)) (Fin b)] else [])"
  using vis area small nz unfolding W H
  by (simp add: scrollTo_def Let_def dx dy num_eq_def num_ge_def num_gt_def num_of_int_def)



lemma margins_geometry:
  assumes a: "\<bar>a\<bar> < W" and b: "\<bar>b\<bar> < H" and nz: "a \<noteq> 0 \<or> b \<noteq> 0"
  and m: "margins =
       (if a < 0 then [PaintCall (Fin 0) (Fin 0) (Fin (- a)) (Fin H)] else [])
     @ (if 0 < a then [PaintCall (Fin (W - a)) (Fin 0) (Fin a) (Fin H)] else [])
     @ (if b < 0 then [PaintCall (Fin (max (- a) 0)) (Fin 0) (Fin (W - \<bar>a\<bar>)) (Fin (- b))] else [])
     @ (if 0 < b then [PaintCall (Fin (max (- a) 0)) (Fin (H - b)) (Fin (W - \<bar>a\<bar>)) (Fin b)] else [])"
  and bl: "blit = DrawImage Canvas Canvas
              (Fin (max a 0)) (Fin (max b 0)) (Fin (W - \<bar>a\<bar>)) (Fin (H - \<bar>b\<bar>))
              (Fin (max (- a) 0)) (Fin (max (- b) 0)) (Fin (W - \<bar>a\<bar>)) (Fin (H - \<bar>b\<bar>))"
  shows "\<Union> (set (map painted margins)) =
      rect (Fin 0) (Fin 0) (Fin W) (Fin H) - blit_target blit"
    and "pairwise_disjoint (map painted margins)"
    and "blit_target blit \<subseteq> rect (Fin 0) (Fin 0) (Fin W) (Fin H)"
proof -
  consider "a < 0" "b < 0" | "a < 0" "b = 0" | "a < 0" "0 < b"
    | "a = 0" "b < 0" | "a = 0" "0 < b"
    | "0 < a" "b < 0" | "0 < a" "b = 0" | "0 < a" "0 < b"
    using nz by linarith
  then have "\<Union> (set (map painted margins)) =
      rect (Fin 0) (Fin 0) (Fin W) (Fin H) - blit_target blit \<and>
      pairwise_disjoint (map painted margins) \<and>
      blit_target blit \<subseteq> rect (Fin 0) (Fin 0) (Fin W) (Fin H)"
  proof cases
    case 1
    with a b show ?thesis unfolding m bl by (auto simp add: in_span_def)
  next
    case 2
    with a b show ?thesis unfolding m bl by (auto simp add: in_span_def)
  next
    case 3
    with a b show ?thesis unfolding m bl by (auto simp add: in_span_def)
  next
    case 4
    with a b show ?thesis unfolding m bl by (auto simp add: in_span_def)
  next
    case 5
    with a b show ?thesis unfolding m bl by (auto simp add: in_span_def)
  next
    case 6
    with a b show ?thesis unfolding m bl by (auto simp add: in_span_def)
  next
    case 7
    with a b show ?thesis unfolding m bl by (auto simp add: in_span_def)
  next
    case 8
    with a b show ?thesis unfolding m bl by (auto simp add: in_span_def)
  qed
  then show "\<Union> (set (map painted margins)) =
      rect (Fin 0) (Fin 0) (Fin W) (Fin H) - blit_target blit"
    and "pairwise_disjoint (map painted margins)"
    and "blit_target blit \<subseteq> rect (Fin 0) (Fin 0) (Fin W) (Fin H)"
    by simp_all
qed

lemma int_of_of_int [simp]: "int_of (Fin (real_of_int k)) = Some k"
  by simp

lemma run_paints_frame:
  "list_all is_PaintCall ps \<Longrightarrow>
   \<exists>\<sigma>'. run content ps \<sigma> = Some \<sigma>' \<and>
     (\<forall>p. (\<forall>x y w h. PaintCall x y w h \<in> set ps \<longrightarrow> \<not> covers x y w h p) \<longrightarrow>
        bm_pixel (on_screen \<sigma>') p = bm_pixel (on_screen \<sigma>) p)"
proof (induction ps arbitrary: \<sigma>)
  case Nil
  then show ?case by simp
next
  case (Cons e ps)
  then obtain x y w h where e: "e = PaintCall x y w h" and rest: "list_all is_PaintCall ps"
    by (cases e) simp_all
  define \<sigma>1 where "\<sigma>1 = \<sigma>\<lparr>on_screen := (on_screen \<sigma>)\<lparr>bm_pixel := (\<lambda>p.
       if inside (on_screen \<sigma>) p \<and> covers x y w h p
       then content (on_screen \<sigma>) x y w h p
       else bm_pixel (on_screen \<sigma>) p)\<rparr>\<rparr>"
  from Cons.IH [OF rest, of \<sigma>1] obtain \<sigma>' where r: "run content ps \<sigma>1 = Some \<sigma>'"
    and keep: "\<forall>p. (\<forall>x y w h. PaintCall x y w h \<in> set ps \<longrightarrow> \<not> covers x y w h p) \<longrightarrow>
        bm_pixel (on_screen \<sigma>') p = bm_pixel (on_screen \<sigma>1) p" by blast
  have "run content (e # ps) \<sigma> = Some \<sigma>'"
    using r by (simp add: e \<sigma>1_def)
  moreover have "\<forall>p. (\<forall>x y w h. PaintCall x y w h \<in> set (e # ps) \<longrightarrow> \<not> covers x y w h p) \<longrightarrow>
        bm_pixel (on_screen \<sigma>') p = bm_pixel (on_screen \<sigma>) p"
    using keep by (simp add: e \<sigma>1_def)
  ultimately show ?case by blast
qed

lemma blit_pixels:
  fixes ai bi :: int
  assumes a: "\<bar>ai\<bar> < Wi" and b: "\<bar>bi\<bar> < Hi"
    and dims: "bm_width (on_screen \<sigma>) = Wi" "bm_height (on_screen \<sigma>) = Hi"
    and W: "W = real_of_int Wi" and H: "H = real_of_int Hi"
    and ar: "a = real_of_int ai" and br: "b = real_of_int bi"
    and m: "margins =
       (if a < 0 then [PaintCall (Fin 0) (Fin 0) (Fin (- a)) (Fin H)] else [])
     @ (if 0 < a then [PaintCall (Fin (W - a)) (Fin 0) (Fin a) (Fin H)] else [])
     @ (if b < 0 then [PaintCall (Fin (max (- a) 0)) (Fin 0) (Fin (W - \<bar>a\<bar>)) (Fin (- b))] else [])
     @ (if 0 < b then [PaintCall (Fin (max (- a) 0)) (Fin (H - b)) (Fin (W - \<bar>a\<bar>)) (Fin b)] else [])"
    and bl: "blit = DrawImage Canvas Canvas
              (Fin (max a 0)) (Fin (max b 0)) (Fin (W - \<bar>a\<bar>)) (Fin (H - \<bar>b\<bar>))
              (Fin (max (- a) 0)) (Fin (max (- b) 0)) (Fin (W - \<bar>a\<bar>)) (Fin (H - \<bar>b\<bar>))"
  shows "\<exists>\<sigma>'. run content (blit # margins) \<sigma> = Some \<sigma>' \<and>
     (\<forall>i j. (real_of_int i, real_of_int j) \<in> blit_target blit \<longrightarrow>
        bm_pixel (on_screen \<sigma>') (i, j) =
          over (bm_pixel (on_screen \<sigma>) (i + ai, j + bi)) (bm_pixel (on_screen \<sigma>) (i, j)))"
proof -
  have cast: "Fin (max a 0) = Fin (real_of_int (max ai 0))" "Fin (max b 0) = Fin (real_of_int (max bi 0))"
    "Fin (W - \<bar>a\<bar>) = Fin (real_of_int (Wi - \<bar>ai\<bar>))" "Fin (H - \<bar>b\<bar>) = Fin (real_of_int (Hi - \<bar>bi\<bar>))"
    "Fin (max (- a) 0) = Fin (real_of_int (max (- ai) 0))"
    "Fin (max (- b) 0) = Fin (real_of_int (max (- bi) 0))"
    unfolding W H ar br by (simp_all add: max_def)
  define \<sigma>1 where "\<sigma>1 = set_bitmap Canvas
     (drawImage_px (on_screen \<sigma>) (max ai 0) (max bi 0) (Wi - \<bar>ai\<bar>) (Hi - \<bar>bi\<bar>)
        (max (- ai) 0) (max (- bi) 0) (on_screen \<sigma>)) \<sigma>"
  have e1: "exec content blit \<sigma> = Some \<sigma>1"
    unfolding bl cast \<sigma>1_def using a b
    by (simp only: exec.simps int_of_of_int bitmap_of_def surface.case) simp
  have kinds: "list_all is_PaintCall margins"
    by (simp add: m)
  from run_paints_frame [OF kinds, of content \<sigma>1] obtain \<sigma>' where
    r: "run content margins \<sigma>1 = Some \<sigma>'"
    and keep: "\<forall>p. (\<forall>x y w h. PaintCall x y w h \<in> set margins \<longrightarrow> \<not> covers x y w h p) \<longrightarrow>
        bm_pixel (on_screen \<sigma>') p = bm_pixel (on_screen \<sigma>1) p" by blast
  have run: "run content (blit # margins) \<sigma> = Some \<sigma>'"
    using e1 r by simp
  have px: "bm_pixel (on_screen \<sigma>') (i, j) =
          over (bm_pixel (on_screen \<sigma>) (i + ai, j + bi)) (bm_pixel (on_screen \<sigma>) (i, j))"
    if tgt: "(real_of_int i, real_of_int j) \<in> blit_target blit" for i j
  proof -
    have nn: "0 \<le> W - \<bar>a\<bar>" "0 \<le> H - \<bar>b\<bar>"
      using a b unfolding W H ar br by linarith+
    from tgt nn have r: "max (- a) 0 \<le> real_of_int i" "real_of_int i < max (- a) 0 + (W - \<bar>a\<bar>)"
      "max (- b) 0 \<le> real_of_int j" "real_of_int j < max (- b) 0 + (H - \<bar>b\<bar>)"
      unfolding bl by (auto simp add: in_span_def)
    have "real_of_int (max (- ai) 0) \<le> real_of_int i"
      "real_of_int i < real_of_int (max (- ai) 0 + (Wi - \<bar>ai\<bar>))"
      "real_of_int (max (- bi) 0) \<le> real_of_int j"
      "real_of_int j < real_of_int (max (- bi) 0 + (Hi - \<bar>bi\<bar>))"
      using r unfolding W H ar br by (auto simp add: max_def split: if_splits)
    then have box: "max (- ai) 0 \<le> i" "i < max (- ai) 0 + (Wi - \<bar>ai\<bar>)"
      "max (- bi) 0 \<le> j" "j < max (- bi) 0 + (Hi - \<bar>bi\<bar>)"
      by (simp_all only: of_int_le_iff of_int_less_iff)
    have free: "\<forall>x y w h. PaintCall x y w h \<in> set margins \<longrightarrow> \<not> covers x y w h (i, j)"
      using box a b unfolding m W H ar br
      by (auto simp add: overlaps_def split: if_splits)
    from keep free have "bm_pixel (on_screen \<sigma>') (i, j) = bm_pixel (on_screen \<sigma>1) (i, j)"
      by blast
    also have "\<dots> = over (bm_pixel (on_screen \<sigma>) (i + ai, j + bi)) (bm_pixel (on_screen \<sigma>) (i, j))"
      using box a b dims
      by (auto simp add: \<sigma>1_def set_bitmap_def drawImage_px_def inside_def max_def
          split: if_splits)
    finally show ?thesis .
  qed
  from run px show ?thesis by blast
qed

text \<open>
  C1: on a visible surface of non-zero area, a scroll whose deltas \<open>dx\<close> and \<open>dy\<close>
  (computed after coercion, against the stored position) are smaller in absolute value
  than the width and the height and are not both zero performs exactly one
  \<open>drawImage\<close> of the canvas onto itself, which moves the still valid sub-image by
  \<open>(-dx, -dy)\<close>, and then only \<open>_paint\<close> calls, at most four. Their dirty rectangles
  are pairwise disjoint and their union is the surface rectangle minus the destination
  rectangle of the copy, which lies in the surface. For a horizontal scroll (\<open>dy = 0\<close>)
  there is exactly one \<open>_paint\<close> call, on a strip of width \<open>|dx|\<close> and of the height
  of the surface. On the bitmaps, for whole deltas: every pixel of the destination
  rectangle ends as the pixel that was \<open>(dx, dy)\<close> further on, drawn over the old one,
  whatever the paint calls draw; it is copied and not painted again.
\<close>

theorem scrollTo_blit_and_margins:
  assumes vis: "isVisible s"
    and area: "0 < canvas_width s" "0 < canvas_height s"
    and dx: "dx = num_sub (Math_max (Fin 0) (Math_round x)) (scrollX s)"
    and dy: "dy = num_sub (Math_max (Fin 0) (Math_round y)) (scrollY s)"
    and small: "num_lt (Math_abs dx) (num_of_int (canvas_width s))"
               "num_lt (Math_abs dy) (num_of_int (canvas_height s))"
    and nz: "\<not> (num_eq dx (Fin 0) \<and> num_eq dy (Fin 0))"
    and W: "W = real_of_int (canvas_width s)" and H: "H = real_of_int (canvas_height s)"
  shows "\<exists>a b blit margins.
     dx = Fin a \<and> dy = Fin b \<and>
     snd (scrollTo x y s) = blit # margins \<and>
     blit = DrawImage Canvas Canvas
              (Fin (max a 0)) (Fin (max b 0)) (Fin (W - \<bar>a\<bar>)) (Fin (H - \<bar>b\<bar>))
              (Fin (max (- a) 0)) (Fin (max (- b) 0)) (Fin (W - \<bar>a\<bar>)) (Fin (H - \<bar>b\<bar>)) \<and>
     list_all is_PaintCall margins \<and> length margins \<le> 4 \<and>
     pairwise_disjoint (map painted margins) \<and>
     blit_target blit \<subseteq> rect (Fin 0) (Fin 0) (Fin W) (Fin H) \<and>
     \<Union> (set (map painted margins)) = rect (Fin 0) (Fin 0) (Fin W) (Fin H) - blit_target blit \<and>
     (b = 0 \<longrightarrow>
        margins = [PaintCall (Fin (if a < 0 then 0 else W - a)) (Fin 0) (Fin \<bar>a\<bar>) (Fin H)]) \<and>
     (\<forall>ai bi (\<sigma> :: 'c surfaces). a = real_of_int ai \<and> b = real_of_int bi \<and>
        bm_width (on_screen \<sigma>) = canvas_width s \<and> bm_height (on_screen \<sigma>) = canvas_height s \<longrightarrow>
        (\<exists>\<sigma>'. run content (snd (scrollTo x y s)) \<sigma> = Some \<sigma>' \<and>
           (\<forall>i j. (real_of_int i, real_of_int j) \<in> blit_target blit \<longrightarrow>
              bm_pixel (on_screen \<sigma>') (i, j) =
                over (bm_pixel (on_screen \<sigma>) (i + ai, j + bi)) (bm_pixel (on_screen \<sigma>) (i, j)))))"
proof -
  from small obtain a b where a: "dx = Fin a" "\<bar>a\<bar> < W" and b: "dy = Fin b" "\<bar>b\<bar> < H"
    unfolding W H num_lt_abs_fin by blast
  from nz a b have nz': "a \<noteq> 0 \<or> b \<noteq> 0"
    by (auto simp add: num_eq_def)
  define blit where "blit = DrawImage Canvas Canvas
              (Fin (max a 0)) (Fin (max b 0)) (Fin (W - \<bar>a\<bar>)) (Fin (H - \<bar>b\<bar>))
              (Fin (max (- a) 0)) (Fin (max (- b) 0)) (Fin (W - \<bar>a\<bar>)) (Fin (H - \<bar>b\<bar>))"
  define margins where "margins =
       (if a < 0 then [PaintCall (Fin 0) (Fin 0) (Fin (- a)) (Fin H)] else [])
     @ (if 0 < a then [PaintCall (Fin (W - a)) (Fin 0) (Fin a) (Fin H)] else [])
     @ (if b < 0 then [PaintCall (Fin (max (- a) 0)) (Fin 0) (Fin (W - \<bar>a\<bar>)) (Fin (- b))] else [])
     @ (if 0 < b then [PaintCall (Fin (max (- a) 0)) (Fin (H - b)) (Fin (W - \<bar>a\<bar>)) (Fin b)] else [])"
  have dxa: "num_sub (Math_max (Fin 0) (Math_round x)) (scrollX s) = Fin a"
    and dyb: "num_sub (Math_max (Fin 0) (Math_round y)) (scrollY s) = Fin b"
    using a(1) b(1) dx dy by simp_all
  have ops: "snd (scrollTo x y s) = blit # margins"
    unfolding blit_def margins_def
    by (rule scrollTo_blit_ops [OF vis area dxa dyb a(2) b(2) nz' W H])
  have kinds: "list_all is_PaintCall margins" and len: "length margins \<le> 4"
    by (simp_all add: margins_def)
  have horiz: "b = 0 \<longrightarrow>
        margins = [PaintCall (Fin (if a < 0 then 0 else W - a)) (Fin 0) (Fin \<bar>a\<bar>) (Fin H)]"
    using nz' by (simp add: margins_def)
  note geo = margins_geometry [OF a(2) b(2) nz' margins_def blit_def]
  have pixels: "\<forall>ai bi \<sigma>. a = real_of_int ai \<and> b = real_of_int bi \<and>
        bm_width (on_screen \<sigma>) = canvas_width s \<and> bm_height (on_screen \<sigma>) = canvas_height s \<longrightarrow>
        (\<exists>\<sigma>'. run content (snd (scrollTo x y s)) \<sigma> = Some \<sigma>' \<and>
           (\<forall>i j. (real_of_int i, real_of_int j) \<in> blit_target blit \<longrightarrow>
              bm_pixel (on_screen \<sigma>') (i, j) =
                over (bm_pixel (on_screen \<sigma>) (i + ai, j + bi)) (bm_pixel (on_screen \<sigma>) (i, j))))"
  proof (intro allI impI)
    fix ai bi :: int and \<sigma> :: "'c surfaces"
    assume *: "a = real_of_int ai \<and> b = real_of_int bi \<and>
        bm_width (on_screen \<sigma>) = canvas_width s \<and> bm_height (on_screen \<sigma>) = canvas_height s"
    with a(2) b(2) have "\<bar>ai\<bar> < canvas_width s" "\<bar>bi\<bar> < canvas_height s"
      unfolding W H by linarith+
    from blit_pixels [OF this _ _ W H _ _ margins_def blit_def, of \<sigma> content] *
    show "\<exists>\<sigma>'. run content (snd (scrollTo x y s)) \<sigma> = Some \<sigma>' \<and>
           (\<forall>i j. (real_of_int i, real_of_int j) \<in> blit_target blit \<longrightarrow>
              bm_pixel (on_screen \<sigma>') (i, j) =
                over (bm_pixel (on_screen \<sigma>) (i + ai, j + bi)) (bm_pixel (on_screen \<sigma>) (i, j)))"
      unfolding ops by simp
  qed
  show ?thesis
    apply (rule exI [of _ a], rule exI [of _ b], rule exI [of _ blit], rule exI [of _ margins])
    apply (intro conjI)
    apply (fact a(1) b(1) ops blit_def kinds len geo horiz pixels)+
    done
qed

theorem scrollTo_blit_and_margins_witness:
  "isVisible exampleCanvas \<and> 0 < canvas_width exampleCanvas \<and> 0 < canvas_height exampleCanvas \<and>
   num_lt (Math_abs (Fin 30)) (num_of_int (canvas_width exampleCanvas)) \<and>
   snd (scrollTo (Fin 30) (Fin 0) exampleCanvas) =
     [DrawImage Canvas Canvas (Fin 30) (Fin 0) (Fin 70) (Fin 60) (Fin 0) (Fin 0) (Fin 70) (Fin 60),
      PaintCall (Fin 70) (Fin 0) (Fin 30) (Fin 60)]"
proof -
  have pre: "isVisible exampleCanvas" "0 < canvas_width exampleCanvas"
    "0 < canvas_height exampleCanvas"
    "Fin 30 = num_sub (Math_max (Fin 0) (Math_round (Fin 30))) (scrollX exampleCanvas)"
    "Fin 0 = num_sub (Math_max (Fin 0) (Math_round (Fin 0))) (scrollY exampleCanvas)"
    "num_lt (Math_abs (Fin 30)) (num_of_int (canvas_width exampleCanvas))"
    "num_lt (Math_abs (Fin 0)) (num_of_int (canvas_height exampleCanvas))"
    "\<not> (num_eq (Fin 30) (Fin 0) \<and> num_eq (Fin 0) (Fin 0))"
    "100 = real_of_int (canvas_width exampleCanvas)"
    "60 = real_of_int (canvas_height exampleCanvas)"
    by (simp_all add: exampleCanvas_def round_half_up_def num_eq_def num_of_int_def)
  from scrollTo_blit_and_margins [OF pre]
  obtain a b blit margins where
    "Fin 30 = Fin a" "Fin 0 = Fin b" "snd (scrollTo (Fin 30) (Fin 0) exampleCanvas) = blit # margins"
    "blit = DrawImage Canvas Canvas
              (Fin (max a 0)) (Fin (max b 0)) (Fin (100 - \<bar>a\<bar>)) (Fin (60 - \<bar>b\<bar>))
              (Fin (max (- a) 0)) (Fin (max (- b) 0)) (Fin (100 - \<bar>a\<bar>)) (Fin (60 - \<bar>b\<bar>))"
    "b = 0 \<longrightarrow>
        margins = [PaintCall (Fin (if a < 0 then 0 else 100 - a)) (Fin 0) (Fin \<bar>a\<bar>) (Fin 60)]"
    by blast
  then show ?thesis
    using pre by simp
qed

text \<open>
  C2: on a visible surface of non-zero area, a scroll with \<open>|dx| >= width\<close> or
  \<open>|dy| >= height\<close> (deltas computed after coercion, against the stored position)
  performs one \<open>_paint\<close> call on the whole surface \<open>(0, 0, width, height)\<close> and
  nothing else: no \<open>drawImage\<close>.
\<close>

theorem scrollTo_full_repaint:
  assumes vis: "isVisible s"
    and area: "0 < canvas_width s" "0 < canvas_height s"
    and dx: "dx = num_sub (Math_max (Fin 0) (Math_round x)) (scrollX s)"
    and dy: "dy = num_sub (Math_max (Fin 0) (Math_round y)) (scrollY s)"
    and big: "num_ge (Math_abs dx) (num_of_int (canvas_width s)) \<or>
              num_ge (Math_abs dy) (num_of_int (canvas_height s))"
  shows "snd (scrollTo x y s) =
           [PaintCall (Fin 0) (Fin 0) (num_of_int (canvas_width s)) (num_of_int (canvas_height s))]"
proof -
  from big area have nz: "\<not> (num_eq dx (Fin 0) \<and> num_eq dy (Fin 0))"
    using num_ge_abs_pos by blast
  have dims: "\<not> num_eq (num_of_int (canvas_width s)) (Fin 0)"
    "\<not> num_eq (num_of_int (canvas_height s)) (Fin 0)"
    using area by (simp_all add: num_eq_def num_of_int_def)
  show ?thesis
    using nz big vis dims unfolding dx dy
    by (simp add: scrollTo_def Let_def)
qed

theorem scrollTo_full_repaint_witness:
  "isVisible exampleCanvas \<and> 0 < canvas_width exampleCanvas \<and> 0 < canvas_height exampleCanvas \<and>
   num_ge (Math_abs (Fin 250)) (num_of_int (canvas_width exampleCanvas)) \<and>
   snd (scrollTo (Fin (2499 / 10)) (Fin (- 3)) exampleCanvas) =
     [PaintCall (Fin 0) (Fin 0) (Fin 100) (Fin 60)]"
  using scrollTo_full_repaint [of exampleCanvas "Fin 250" "Fin (2499 / 10)" "Fin 0" "Fin (- 3)"]
  by (simp add: exampleCanvas_def round_half_up_def num_ge_def num_eq_def num_of_int_def)

section \<open>Properties of painting\<close>

text \<open>
  C7: every \<open>_paint(rx, ry, rw, rh)\<close> begins by filling the dirty rectangle with the
  void colour. When the data model, the row header or the column header is absent, or
  the model has zero rows or zero columns, nothing follows the fill: no grid line and
  no cell. \<open>paint\<close> is a total function, so nothing is raised.
\<close>

theorem paint_fill_only_without_grid:
  "\<exists>rest. paint s rx ry rw rh = [FillStyle ''#D4D4D4'', FillRect rx ry rw rh] @ rest \<and>
     (model s = None \<or> rowHeader s = None \<or> columnHeader s = None \<or>
      (\<exists>m. model s = Some m \<and> (rowCount m = 0 \<or> columnCount m = 0))
      \<longrightarrow> rest = [])"
  by (auto simp add: paint_def resolveRegion_def split: option.splits)

theorem paint_fill_only_without_grid_witness:
  "(\<exists>m. model emptyGrid = Some m \<and> rowCount m = 0) \<and>
   paint emptyGrid (Fin 10) (Fin 20) (Fin 30) (Fin 40) =
     [FillStyle ''#D4D4D4'', FillRect (Fin 10) (Fin 20) (Fin 30) (Fin 40)]"
  using paint_fill_only_without_grid [of emptyGrid "Fin 10" "Fin 20" "Fin 30" "Fin 40"]
  by (auto simp add: emptyGrid_def namedModel_def)

lemma verticalLines_Fin:
  "verticalLines (Fin x0) y1 y2 (map Fin ws) =
     concat (map (\<lambda>i. [MoveTo (Fin (x0 + sum_list (take (Suc i) ws))) y1,
                         LineTo (Fin (x0 + sum_list (take (Suc i) ws))) y2]) [0 ..< length ws])"
proof (induction ws arbitrary: x0)
  case Nil
  show ?case by simp
next
  case (Cons w ws)
  have "[0 ..< length (w # ws)] = 0 # map Suc [0 ..< length ws]"
    by (simp add: upt_conv_Cons map_Suc_upt del: upt_Suc)
  then show ?case
    using Cons.IH [of "x0 + w"] by (simp add: o_def add.assoc)
qed

lemma horizontalLines_Fin:
  "horizontalLines (Fin y0) x1 x2 (map Fin hs) =
     concat (map (\<lambda>j. [MoveTo x1 (Fin (y0 + sum_list (take (Suc j) hs))),
                         LineTo x2 (Fin (y0 + sum_list (take (Suc j) hs)))]) [0 ..< length hs])"
proof (induction hs arbitrary: y0)
  case Nil
  show ?case by simp
next
  case (Cons h hs)
  have "[0 ..< length (h # hs)] = 0 # map Suc [0 ..< length hs]"
    by (simp add: upt_conv_Cons map_Suc_upt del: upt_Suc)
  then show ?case
    using Cons.IH [of "y0 + h"] by (simp add: o_def add.assoc)
qed

text \<open>
  C5, as the code has it: for a region of finite origin and sizes the grid-line pass
  draws one vertical line for every column of the region, at the trailing edge of that
  column less half a pixel, from the top to the bottom of the region box, and one
  horizontal line for every row, at the trailing edge of that row less half a pixel,
  from the left to the right of the box. The last line of each direction lies on the
  trailing edge of the region, so the lines are one more than the interior boundaries.
\<close>

theorem drawGridLines_one_line_per_section:
  assumes "rgn_x rgn = Fin x" and "rgn_y rgn = Fin y"
    and "rgn_width rgn = Fin w" and "rgn_height rgn = Fin h"
    and "rgn_columnSizes rgn = map Fin ws" and "rgn_rowSizes rgn = map Fin hs"
  shows "drawGridLines rgn =
     [LineWidth (Fin 1), LineCap ''butt'', StrokeStyle ''gray'', BeginPath]
     @ concat (map (\<lambda>i. [MoveTo (Fin (x - 1 / 2 + sum_list (take (Suc i) ws))) (Fin y),
                           LineTo (Fin (x - 1 / 2 + sum_list (take (Suc i) ws))) (Fin (y + h))])
                 [0 ..< length ws])
     @ concat (map (\<lambda>j. [MoveTo (Fin x) (Fin (y - 1 / 2 + sum_list (take (Suc j) hs))),
                           LineTo (Fin (x + w)) (Fin (y - 1 / 2 + sum_list (take (Suc j) hs)))])
                 [0 ..< length hs])
     @ [Stroke]"
  using assms
  by (simp add: drawGridLines_def verticalLines_Fin horizontalLines_Fin num_sub_def)


theorem drawGridLines_one_line_per_section_witness:
  "drawGridLines \<lparr>rgn_x = Fin 0, rgn_y = Fin 0, rgn_width = Fin 100, rgn_height = Fin 60,
       rgn_firstRow = 0, rgn_firstColumn = 0,
       rgn_rowSizes = [Fin 20, Fin 20, Fin 20], rgn_columnSizes = [Fin 50, Fin 50]\<rparr> =
     [LineWidth (Fin 1), LineCap ''butt'', StrokeStyle ''gray'', BeginPath,
      MoveTo (Fin (99 / 2)) (Fin 0), LineTo (Fin (99 / 2)) (Fin 60),
      MoveTo (Fin (199 / 2)) (Fin 0), LineTo (Fin (199 / 2)) (Fin 60),
      MoveTo (Fin 0) (Fin (39 / 2)), LineTo (Fin 100) (Fin (39 / 2)),
      MoveTo (Fin 0) (Fin (79 / 2)), LineTo (Fin 100) (Fin (79 / 2)),
      MoveTo (Fin 0) (Fin (119 / 2)), LineTo (Fin 100) (Fin (119 / 2)),
      Stroke]"
  using drawGridLines_one_line_per_section
    [of "\<lparr>rgn_x = Fin 0, rgn_y = Fin 0, rgn_width = Fin 100, rgn_height = Fin 60,
       rgn_firstRow = 0, rgn_firstColumn = 0,
       rgn_rowSizes = [Fin 20, Fin 20, Fin 20], rgn_columnSizes = [Fin 50, Fin 50]\<rparr>"
       0 0 100 60 "[50, 50]" "[20, 20, 20]"]
  by simp

text \<open>
  C5 as it is stated fails on the example it names: \<open>paint(0, 0, 100, 60)\<close> on two
  columns of width 50 and three rows of height 20 draws two vertical lines, at
  \<open>x = 49.5\<close> and \<open>x = 99.5\<close>, and three horizontal lines, at \<open>y = 19.5\<close>, \<open>39.5\<close> and
  \<open>59.5\<close>, not one line at \<open>x = 50\<close> and two at \<open>y = 20\<close> and \<open>y = 40\<close>.
\<close>

theorem paint_example_grid_lines:
  "lineSegments (paint exampleGrid (Fin 0) (Fin 0) (Fin 100) (Fin 60)) =
     [((Fin (99 / 2), Fin 0), (Fin (99 / 2), Fin 60)),
      ((Fin (199 / 2), Fin 0), (Fin (199 / 2), Fin 60)),
      ((Fin 0, Fin (39 / 2)), (Fin 100, Fin (39 / 2))),
      ((Fin 0, Fin (79 / 2)), (Fin 100, Fin (79 / 2))),
      ((Fin 0, Fin (119 / 2)), (Fin 100, Fin (119 / 2)))]"
  by code_simp

lemma upto_as_upt: "map f [i..j] = map (\<lambda>k. f (i + int k)) [0 ..< nat (j - i + 1)]"
proof (induction "nat (j - i + 1)" arbitrary: i)
  case 0
  then show ?case by simp
next
  case (Suc n)
  then have le: "i \<le> j" and n: "n = nat (j - (i + 1) + 1)" by linarith+
  have "[0 ..< nat (j - i + 1)] = 0 # map Suc [0 ..< n]"
    using Suc.hyps(2) [symmetric] by (simp add: upt_conv_Cons map_Suc_upt del: upt_Suc)
  moreover have "[i..j] = i # [i + 1..j]"
    using le by (simp add: upto_rec1)
  ultimately show ?case
    using Suc.hyps(1) [OF n] n by (simp add: o_def add.assoc)
qed

lemma sectionSizes_upto: "sectionSizes h i1 i2 = map (sectionSize h) [i1..i2]"
  by (simp add: sectionSizes_def upto_as_upt)

text \<open>
  C6, as the code has it: with a non-empty model and both headers attached, a dirty
  rectangle whose origin lies in no section of the columns or in no section of the rows
  (the oracle answers a negative index) resolves to no region, and \<open>_paint\<close> draws the
  void fill and nothing else. A rectangle whose origin lies in a section of each axis
  resolves to a region that starts at those sections; on an axis where the far edge of
  the rectangle lies beyond the last section, the region runs to the last row or
  column of the model, and it is not empty when the first section is one of the model.
  \<open>_paint\<close> then clips to the rectangle and runs the three passes.
\<close>

theorem resolveRegion_last_section_fallback:
  assumes "model s = Some m" and "rowHeader s = Some rowHdr" and "columnHeader s = Some colHdr"
    and "rowCount m \<noteq> 0" and "columnCount m \<noteq> 0"
    and "i1 = sectionAt colHdr (num_add rx (scrollX s))"
    and "j1 = sectionAt rowHdr (num_add ry (scrollY s))"
    and "i2 = sectionAt colHdr (num_add (num_add rx rw) (scrollX s))"
    and "j2 = sectionAt rowHdr (num_add (num_add ry rh) (scrollY s))"
  shows "(i1 < 0 \<or> j1 < 0 \<longrightarrow>
       resolveRegion s rx ry rw rh = None \<and>
       paint s rx ry rw rh = [FillStyle ''#D4D4D4'', FillRect rx ry rw rh]) \<and>
     (0 \<le> i1 \<and> 0 \<le> j1 \<longrightarrow>
       (\<exists>rgn. resolveRegion s rx ry rw rh = Some rgn \<and>
          rgn_firstColumn rgn = i1 \<and> rgn_firstRow rgn = j1 \<and>
          rgn_columnSizes rgn =
            map (sectionSize colHdr) [i1 .. (if i2 < 0 then columnCount m - 1 else i2)] \<and>
          rgn_rowSizes rgn =
            map (sectionSize rowHdr) [j1 .. (if j2 < 0 then rowCount m - 1 else j2)] \<and>
          (i2 < 0 \<and> i1 < columnCount m \<longrightarrow> rgn_columnSizes rgn \<noteq> []) \<and>
          (j2 < 0 \<and> j1 < rowCount m \<longrightarrow> rgn_rowSizes rgn \<noteq> []) \<and>
          paint s rx ry rw rh =
            [FillStyle ''#D4D4D4'', FillRect rx ry rw rh, Save, BeginPath, Rect rx ry rw rh, Clip]
            @ drawBackground rgn @ drawGridLines rgn @ drawCells m (cellRenderers s) rgn
            @ [Restore]))"
proof (intro conjI impI)
  assume "i1 < 0 \<or> j1 < 0"
  with assms show "resolveRegion s rx ry rw rh = None"
    by (auto simp add: resolveRegion_def Let_def)
  then show "paint s rx ry rw rh = [FillStyle ''#D4D4D4'', FillRect rx ry rw rh]"
    by (simp add: paint_def)
next
  assume "0 \<le> i1 \<and> 0 \<le> j1"
  with assms show "\<exists>rgn. resolveRegion s rx ry rw rh = Some rgn \<and>
          rgn_firstColumn rgn = i1 \<and> rgn_firstRow rgn = j1 \<and>
          rgn_columnSizes rgn =
            map (sectionSize colHdr) [i1 .. (if i2 < 0 then columnCount m - 1 else i2)] \<and>
          rgn_rowSizes rgn =
            map (sectionSize rowHdr) [j1 .. (if j2 < 0 then rowCount m - 1 else j2)] \<and>
          (i2 < 0 \<and> i1 < columnCount m \<longrightarrow> rgn_columnSizes rgn \<noteq> []) \<and>
          (j2 < 0 \<and> j1 < rowCount m \<longrightarrow> rgn_rowSizes rgn \<noteq> []) \<and>
          paint s rx ry rw rh =
            [FillStyle ''#D4D4D4'', FillRect rx ry rw rh, Save, BeginPath, Rect rx ry rw rh, Clip]
            @ drawBackground rgn @ drawGridLines rgn @ drawCells m (cellRenderers s) rgn
            @ [Restore]"
    by (simp add: paint_def resolveRegion_def Let_def sectionSizes_upto)
qed

theorem resolveRegion_last_section_fallback_witness:
  "sectionAt (uniformHeader 50 2) (Fin 180) < 0 \<and> sectionAt (uniformHeader 20 3) (Fin 150) < 0 \<and>
   (\<exists>rgn. resolveRegion exampleGrid (Fin 80) (Fin 50) (Fin 100) (Fin 100) = Some rgn \<and>
      rgn_firstColumn rgn = 1 \<and> rgn_firstRow rgn = 2 \<and>
      rgn_columnSizes rgn = [Fin 50] \<and> rgn_rowSizes rgn = [Fin 20]) \<and>
   sectionAt (uniformHeader 50 2) (Fin 80) = 1 \<and> sectionAt (uniformHeader 20 3) (Fin 200) < 0 \<and>
   resolveRegion exampleGrid (Fin 80) (Fin 200) (Fin 10) (Fin 10) = None \<and>
   paint exampleGrid (Fin 80) (Fin 200) (Fin 10) (Fin 10) =
     [FillStyle ''#D4D4D4'', FillRect (Fin 80) (Fin 200) (Fin 10) (Fin 10)]"
proof -
  have grid: "model exampleGrid = Some (namedModel 3 2 (\<lambda>row column. ''default''))"
    "rowHeader exampleGrid = Some (uniformHeader 20 3)"
    "columnHeader exampleGrid = Some (uniformHeader 50 2)"
    "rowCount (namedModel 3 2 (\<lambda>row column. ''default'')) \<noteq> 0"
    "columnCount (namedModel 3 2 (\<lambda>row column. ''default'')) \<noteq> 0"
    by (simp_all add: exampleGrid_def exampleCanvas_def namedModel_def)
  have inside: "1 = sectionAt (uniformHeader 50 2) (num_add (Fin 80) (scrollX exampleGrid))"
    "2 = sectionAt (uniformHeader 20 3) (num_add (Fin 50) (scrollY exampleGrid))"
    "- 1 = sectionAt (uniformHeader 50 2) (num_add (num_add (Fin 80) (Fin 100)) (scrollX exampleGrid))"
    "- 1 = sectionAt (uniformHeader 20 3) (num_add (num_add (Fin 50) (Fin 100)) (scrollY exampleGrid))"
    by (simp_all add: exampleGrid_def exampleCanvas_def uniformHeader_def)
  have beyond: "1 = sectionAt (uniformHeader 50 2) (num_add (Fin 80) (scrollX exampleGrid))"
    "- 1 = sectionAt (uniformHeader 20 3) (num_add (Fin 200) (scrollY exampleGrid))"
    "1 = sectionAt (uniformHeader 50 2) (num_add (num_add (Fin 80) (Fin 10)) (scrollX exampleGrid))"
    "- 1 = sectionAt (uniformHeader 20 3) (num_add (num_add (Fin 200) (Fin 10)) (scrollY exampleGrid))"
    by (simp_all add: exampleGrid_def exampleCanvas_def uniformHeader_def)
  have far: "sectionAt (uniformHeader 50 2) (Fin 180) < 0"
    "sectionAt (uniformHeader 20 3) (Fin 150) < 0"
    "sectionAt (uniformHeader 50 2) (Fin 80) = 1"
    "sectionAt (uniformHeader 20 3) (Fin 200) < 0"
    by (simp_all add: uniformHeader_def)
  from resolveRegion_last_section_fallback [OF grid inside]
  have region: "\<exists>rgn. resolveRegion exampleGrid (Fin 80) (Fin 50) (Fin 100) (Fin 100) = Some rgn \<and>
      rgn_firstColumn rgn = 1 \<and> rgn_firstRow rgn = 2 \<and>
      rgn_columnSizes rgn = [Fin 50] \<and> rgn_rowSizes rgn = [Fin 20]"
    by (auto simp add: namedModel_def uniformHeader_def)
  from resolveRegion_last_section_fallback [OF grid beyond]
  have fill_only: "resolveRegion exampleGrid (Fin 80) (Fin 200) (Fin 10) (Fin 10) = None"
    "paint exampleGrid (Fin 80) (Fin 200) (Fin 10) (Fin 10) =
       [FillStyle ''#D4D4D4'', FillRect (Fin 80) (Fin 200) (Fin 10) (Fin 10)]"
    by simp_all
  show ?thesis
    apply (intro conjI)
    apply (fact far region fill_only)+
    done
qed

text \<open>
  C6 as it is stated fails: a dirty rectangle that lies entirely beyond the last column
  of a non-empty model resolves to no region, since the oracle has no section at its
  origin, and \<open>_paint\<close> stops after the fill.
\<close>

theorem paint_beyond_last_section_resolves_nothing:
  "rowCount (the (model exampleGrid)) = 3 \<and> columnCount (the (model exampleGrid)) = 2 \<and>
   resolveRegion exampleGrid (Fin 200) (Fin 0) (Fin 10) (Fin 10) = None \<and>
   paint exampleGrid (Fin 200) (Fin 0) (Fin 10) (Fin 10) =
     [FillStyle ''#D4D4D4'', FillRect (Fin 200) (Fin 0) (Fin 10) (Fin 10)]"
  by code_simp

text \<open>
  C4 fails on the code. Three rows of height 20 and two columns of width 50, where the
  model names an unregistered renderer for the cells of row 0: the cells of row 1 are
  handed to the renderer at \<open>y = 0\<close> and those of row 2 at \<open>y = 20\<close>, one row height
  above their rows. The \<open>continue\<close> for a missing renderer leaves the loop body before
  \<open>y += height\<close>.
\<close>

theorem paint_cells_after_missing_renderer:
  "paintedCells (paint gridWithMissingRenderer (Fin 0) (Fin 0) (Fin 100) (Fin 60)) =
     [(1, 0, Fin 0, Fin 0), (2, 0, Fin 0, Fin 20), (1, 1, Fin 50, Fin 0), (2, 1, Fin 50, Fin 20)]"
  by code_simp

lemma drawColumn_scope:
  "RendererPaint r cfg \<in> set (fst (drawColumn m rs x w column row y hs cache)) \<Longrightarrow>
   cfg_column cfg = column \<and>
   (\<exists>j < length hs. cfg_row cfg = row + int j \<and> \<not> num_eq (hs ! j) (Fin 0))"
proof (induction hs arbitrary: row y cache)
  case Nil
  then show ?case by simp
next
  case (Cons h hs)
  have step: "cfg_column cfg = column \<and>
      (\<exists>j < length (h # hs). cfg_row cfg = row + int j \<and> \<not> num_eq ((h # hs) ! j) (Fin 0))"
    if "RendererPaint r cfg \<in> set (fst (drawColumn m rs x w column (row + 1) y' hs c))" for y' c
  proof -
    from Cons.IH [OF that] obtain j where "cfg_column cfg = column" "j < length hs"
      "cfg_row cfg = row + 1 + int j" "\<not> num_eq (hs ! j) (Fin 0)" by blast
    then have "Suc j < length (h # hs) \<and> cfg_row cfg = row + int (Suc j) \<and>
       \<not> num_eq ((h # hs) ! Suc j) (Fin 0)" by simp
    with \<open>cfg_column cfg = column\<close> show ?thesis by blast
  qed
  show ?case
  proof (cases "num_eq h (Fin 0)")
    case True
    with Cons.prems show ?thesis by (intro step) simp
  next
    case False
    show ?thesis
    proof (cases "snd (fetchRenderer rs (data_renderer (cellData m row column resetData)) cache)")
      case None
      with False Cons.prems show ?thesis
        by (intro step) (simp add: Let_def)
    next
      case (Some rd)
      with False Cons.prems
      have "(cfg_row cfg = row \<and> cfg_column cfg = column) \<or>
         RendererPaint r cfg \<in> set (fst (drawColumn m rs x w column (row + 1) (num_add y h) hs
           (fetchRenderer rs (data_renderer (cellData m row column resetData)) cache)))"
        by (auto simp add: Let_def)
      then show ?thesis
      proof
        assume *: "cfg_row cfg = row \<and> cfg_column cfg = column"
        with False have "0 < length (h # hs) \<and> cfg_row cfg = row + int 0 \<and>
          \<not> num_eq ((h # hs) ! 0) (Fin 0)" by simp
        with * show ?thesis by blast
      next
        assume "RendererPaint r cfg \<in> set (fst (drawColumn m rs x w column (row + 1) (num_add y h) hs
           (fetchRenderer rs (data_renderer (cellData m row column resetData)) cache)))"
        then show ?thesis by (rule step)
      qed
    qed
  qed
qed

lemma drawColumn_cache_kept:
  "(\<forall>j < length hs. \<not> num_eq (hs ! j) (Fin 0) \<longrightarrow> rendererNameOf m (row + int j) column = []) \<Longrightarrow>
   drawColumn m rs x w column row y hs ([], None) = ([], ([], None))"
proof (induction hs arbitrary: row)
  case Nil
  show ?case by simp
next
  case (Cons h hs)
  have tl: "\<forall>j < length hs. \<not> num_eq (hs ! j) (Fin 0) \<longrightarrow>
      rendererNameOf m (row + 1 + int j) column = []"
  proof (intro allI impI)
    fix j assume "j < length hs" "\<not> num_eq (hs ! j) (Fin 0)"
    with Cons.prems [rule_format, of "Suc j"] show "rendererNameOf m (row + 1 + int j) column = []"
      by (simp add: add.assoc)
  qed
  have hd: "\<not> num_eq h (Fin 0) \<Longrightarrow> rendererNameOf m row column = []"
    using Cons.prems [rule_format, of 0] by simp
  show ?case
    using Cons.IH [OF tl] hd
    by (cases "num_eq h (Fin 0)") (simp_all add: Let_def rendererNameOf_def fetchRenderer_def)
qed


lemma drawColumn_empty_name:
  "RendererPaint r cfg \<in> set (fst (drawColumn m rs x w column row y hs ([], None))) \<Longrightarrow>
   rendererNameOf m (cfg_row cfg) column = [] \<Longrightarrow>
   \<exists>j < length hs. row + int j < cfg_row cfg \<and> \<not> num_eq (hs ! j) (Fin 0) \<and>
      rendererNameOf m (row + int j) column \<noteq> []"
proof (induction hs arbitrary: row y)
  case Nil
  then show ?case by simp
next
  case (Cons h hs)
  have step: "\<exists>j < length (h # hs). row + int j < cfg_row cfg \<and>
        \<not> num_eq ((h # hs) ! j) (Fin 0) \<and> rendererNameOf m (row + int j) column \<noteq> []"
    if "RendererPaint r cfg \<in> set (fst (drawColumn m rs x w column (row + 1) y' hs ([], None)))" for y'
  proof -
    from Cons.IH [OF that Cons.prems(2)] obtain j where "j < length hs"
      "row + 1 + int j < cfg_row cfg" "\<not> num_eq (hs ! j) (Fin 0)"
      "rendererNameOf m (row + 1 + int j) column \<noteq> []" by blast
    then have "Suc j < length (h # hs) \<and> row + int (Suc j) < cfg_row cfg \<and>
        \<not> num_eq ((h # hs) ! Suc j) (Fin 0) \<and> rendererNameOf m (row + int (Suc j)) column \<noteq> []"
      by (simp add: add.assoc)
    then show ?thesis by blast
  qed
  show ?case
  proof (cases "num_eq h (Fin 0)")
    case True
    with Cons.prems(1) show ?thesis by (intro step) simp
  next
    case False
    show ?thesis
    proof (cases "rendererNameOf m row column = []")
      case True
      with False Cons.prems(1) show ?thesis
        by (intro step) (simp add: Let_def rendererNameOf_def fetchRenderer_def)
    next
      case named: False
      have "row < cfg_row cfg"
      proof (cases "snd (fetchRenderer rs (data_renderer (cellData m row column resetData)) ([], None))")
        case None
        with False Cons.prems(1)
        have "RendererPaint r cfg \<in> set (fst (drawColumn m rs x w column (row + 1) y hs
           (fetchRenderer rs (data_renderer (cellData m row column resetData)) ([], None))))"
          by (simp add: Let_def)
        from drawColumn_scope [OF this] show ?thesis by auto
      next
        case (Some rd)
        with False Cons.prems(1)
        have "cfg_row cfg = row \<or>
          RendererPaint r cfg \<in> set (fst (drawColumn m rs x w column (row + 1) (num_add y h) hs
           (fetchRenderer rs (data_renderer (cellData m row column resetData)) ([], None))))"
          by (auto simp add: Let_def)
        then show ?thesis
        proof
          assume "cfg_row cfg = row"
          with Cons.prems(2) named show ?thesis by simp
        next
          assume "RendererPaint r cfg \<in> set (fst (drawColumn m rs x w column (row + 1) (num_add y h) hs
           (fetchRenderer rs (data_renderer (cellData m row column resetData)) ([], None))))"
          from drawColumn_scope [OF this] show ?thesis by auto
        qed
      qed
      with False named have "0 < length (h # hs) \<and> row + int 0 < cfg_row cfg \<and>
        \<not> num_eq ((h # hs) ! 0) (Fin 0) \<and> rendererNameOf m (row + int 0) column \<noteq> []"
        by simp
      then show ?thesis by blast
    qed
  qed
qed

lemma drawColumns_scope:
  "RendererPaint r cfg \<in> set (fst (drawColumns m rs sy fr hs column x ws cache)) \<Longrightarrow>
   (\<exists>i < length ws. cfg_column cfg = column + int i \<and> \<not> num_eq (ws ! i) (Fin 0)) \<and>
   (\<exists>j < length hs. cfg_row cfg = fr + int j \<and> \<not> num_eq (hs ! j) (Fin 0))"
proof (induction ws arbitrary: column x cache)
  case Nil
  then show ?case by simp
next
  case (Cons w ws)
  have step: "(\<exists>i < length (w # ws). cfg_column cfg = column + int i \<and> \<not> num_eq ((w # ws) ! i) (Fin 0)) \<and>
   (\<exists>j < length hs. cfg_row cfg = fr + int j \<and> \<not> num_eq (hs ! j) (Fin 0))"
    if "RendererPaint r cfg \<in> set (fst (drawColumns m rs sy fr hs (column + 1) x' ws c))" for x' c
  proof -
    from Cons.IH [OF that] obtain i where "i < length ws" "cfg_column cfg = column + 1 + int i"
      "\<not> num_eq (ws ! i) (Fin 0)"
      and rows: "\<exists>j < length hs. cfg_row cfg = fr + int j \<and> \<not> num_eq (hs ! j) (Fin 0)" by blast
    then have "Suc i < length (w # ws) \<and> cfg_column cfg = column + int (Suc i) \<and>
       \<not> num_eq ((w # ws) ! Suc i) (Fin 0)" by simp
    with rows show ?thesis by blast
  qed
  show ?case
  proof (cases "num_eq w (Fin 0)")
    case True
    with Cons.prems show ?thesis by (intro step) simp
  next
    case False
    with Cons.prems
    have "RendererPaint r cfg \<in> set (fst (drawColumn m rs x w column fr sy hs cache)) \<or>
      RendererPaint r cfg \<in> set (fst (drawColumns m rs sy fr hs (column + 1) (num_add x w) ws
        (snd (drawColumn m rs x w column fr sy hs cache))))"
      by (auto simp add: Let_def)
    then show ?thesis
    proof
      assume "RendererPaint r cfg \<in> set (fst (drawColumn m rs x w column fr sy hs cache))"
      from drawColumn_scope [OF this] False
      have "0 < length (w # ws) \<and> cfg_column cfg = column + int 0 \<and> \<not> num_eq ((w # ws) ! 0) (Fin 0)"
        and "\<exists>j < length hs. cfg_row cfg = fr + int j \<and> \<not> num_eq (hs ! j) (Fin 0)"
        by simp_all
      then show ?thesis by blast
    next
      assume "RendererPaint r cfg \<in> set (fst (drawColumns m rs sy fr hs (column + 1) (num_add x w) ws
        (snd (drawColumn m rs x w column fr sy hs cache))))"
      then show ?thesis by (rule step)
    qed
  qed
qed


lemma drawColumns_empty_name:
  "RendererPaint r cfg \<in> set (fst (drawColumns m rs sy fr hs column x ws ([], None))) \<Longrightarrow>
   rendererNameOf m (cfg_row cfg) (cfg_column cfg) = [] \<Longrightarrow>
   \<exists>i j. i < length ws \<and> j < length hs \<and>
     \<not> num_eq (ws ! i) (Fin 0) \<and> \<not> num_eq (hs ! j) (Fin 0) \<and>
     rendererNameOf m (fr + int j) (column + int i) \<noteq> [] \<and>
     earlier (fr + int j, column + int i) (cfg_row cfg, cfg_column cfg)"
proof (induction ws arbitrary: column x)
  case Nil
  then show ?case by simp
next
  case (Cons w ws)
  let ?goal = "\<exists>i j. i < length (w # ws) \<and> j < length hs \<and>
     \<not> num_eq ((w # ws) ! i) (Fin 0) \<and> \<not> num_eq (hs ! j) (Fin 0) \<and>
     rendererNameOf m (fr + int j) (column + int i) \<noteq> [] \<and>
     earlier (fr + int j, column + int i) (cfg_row cfg, cfg_column cfg)"
  have step: ?goal
    if "RendererPaint r cfg \<in> set (fst (drawColumns m rs sy fr hs (column + 1) x' ws ([], None)))" for x'
  proof -
    from Cons.IH [OF that Cons.prems(2)] obtain i j where "i < length ws" "j < length hs"
      "\<not> num_eq (ws ! i) (Fin 0)" "\<not> num_eq (hs ! j) (Fin 0)"
      "rendererNameOf m (fr + int j) (column + 1 + int i) \<noteq> []"
      "earlier (fr + int j, column + 1 + int i) (cfg_row cfg, cfg_column cfg)" by blast
    then have "Suc i < length (w # ws) \<and> j < length hs \<and>
     \<not> num_eq ((w # ws) ! Suc i) (Fin 0) \<and> \<not> num_eq (hs ! j) (Fin 0) \<and>
     rendererNameOf m (fr + int j) (column + int (Suc i)) \<noteq> [] \<and>
     earlier (fr + int j, column + int (Suc i)) (cfg_row cfg, cfg_column cfg)"
      by (simp add: add.assoc)
    then show ?thesis by blast
  qed
  have first: ?goal
    if "j < length hs" "\<not> num_eq (hs ! j) (Fin 0)" "rendererNameOf m (fr + int j) column \<noteq> []"
      "earlier (fr + int j, column) (cfg_row cfg, cfg_column cfg)" "\<not> num_eq w (Fin 0)" for j
  proof -
    from that have "0 < length (w # ws) \<and> j < length hs \<and>
     \<not> num_eq ((w # ws) ! 0) (Fin 0) \<and> \<not> num_eq (hs ! j) (Fin 0) \<and>
     rendererNameOf m (fr + int j) (column + int 0) \<noteq> [] \<and>
     earlier (fr + int j, column + int 0) (cfg_row cfg, cfg_column cfg)"
      by simp
    then show ?thesis by blast
  qed
  show ?case
  proof (cases "num_eq w (Fin 0)")
    case True
    with Cons.prems(1) show ?thesis by (intro step) simp
  next
    case False
    with Cons.prems(1)
    have "RendererPaint r cfg \<in> set (fst (drawColumn m rs x w column fr sy hs ([], None))) \<or>
      RendererPaint r cfg \<in> set (fst (drawColumns m rs sy fr hs (column + 1) (num_add x w) ws
        (snd (drawColumn m rs x w column fr sy hs ([], None)))))"
      by (auto simp add: Let_def)
    then show ?thesis
    proof
      assume here: "RendererPaint r cfg \<in> set (fst (drawColumn m rs x w column fr sy hs ([], None)))"
      from drawColumn_scope [OF here] have col: "cfg_column cfg = column" by simp
      with Cons.prems(2) have "rendererNameOf m (cfg_row cfg) column = []" by simp
      from drawColumn_empty_name [OF here this] obtain j where "j < length hs"
        "fr + int j < cfg_row cfg" "\<not> num_eq (hs ! j) (Fin 0)"
        "rendererNameOf m (fr + int j) column \<noteq> []" by blast
      with col False show ?thesis by (intro first [of j]) (simp_all add: earlier_def)
    next
      assume later: "RendererPaint r cfg \<in> set (fst (drawColumns m rs sy fr hs (column + 1) (num_add x w) ws
        (snd (drawColumn m rs x w column fr sy hs ([], None)))))"
      show ?thesis
      proof (cases "drawColumn m rs x w column fr sy hs ([], None) = ([], ([], None))")
        case True
        with later show ?thesis by (intro step) simp
      next
        case changed: False
        from drawColumn_cache_kept [of hs m fr column rs x w sy] changed
        obtain j where "j < length hs" "\<not> num_eq (hs ! j) (Fin 0)"
          "rendererNameOf m (fr + int j) column \<noteq> []" by blast
        moreover from drawColumns_scope [OF later] have "column < cfg_column cfg" by auto
        ultimately show ?thesis using False by (intro first [of j]) (simp_all add: earlier_def)
      qed
    qed
  qed
qed

text \<open>
  C10: the lookup cache of the cell pass starts as the empty name and no renderer. So
  a cell whose renderer name is the empty string is handed to a renderer only if the
  pass has reached, earlier, a cell with another name; and the first cell that the pass
  reaches is not painted when its name is the empty string, whatever the renderer map
  holds under that name.
\<close>

theorem drawCells_empty_name_needs_earlier_lookup:
  "(RendererPaint r cfg \<in> set (drawCells m rs rgn) \<and>
    rendererNameOf m (cfg_row cfg) (cfg_column cfg) = ''''
    \<longrightarrow> (\<exists>row' column'. processed rgn row' column' \<and>
           earlier (row', column') (cfg_row cfg, cfg_column cfg) \<and>
           rendererNameOf m row' column' \<noteq> '''')) \<and>
   (processed rgn row column \<and> rendererNameOf m row column = '''' \<and>
    (\<forall>row' column'. processed rgn row' column' \<longrightarrow> \<not> earlier (row', column') (row, column))
    \<longrightarrow> (\<forall>r' cfg'. RendererPaint r' cfg' \<in> set (drawCells m rs rgn) \<longrightarrow>
           \<not> (cfg_row cfg' = row \<and> cfg_column cfg' = column)))"
proof -
  have main: "\<exists>row' column'. processed rgn row' column' \<and>
           earlier (row', column') (cfg_row c, cfg_column c) \<and>
           rendererNameOf m row' column' \<noteq> []"
    if "RendererPaint q c \<in> set (drawCells m rs rgn)"
      and "rendererNameOf m (cfg_row c) (cfg_column c) = []" for q c
  proof -
    from drawColumns_empty_name [OF that(1) [unfolded drawCells_def] that(2)]
    obtain i j where "i < length (rgn_columnSizes rgn)" "j < length (rgn_rowSizes rgn)"
      "\<not> num_eq (rgn_columnSizes rgn ! i) (Fin 0)" "\<not> num_eq (rgn_rowSizes rgn ! j) (Fin 0)"
      "rendererNameOf m (rgn_firstRow rgn + int j) (rgn_firstColumn rgn + int i) \<noteq> []"
      "earlier (rgn_firstRow rgn + int j, rgn_firstColumn rgn + int i) (cfg_row c, cfg_column c)"
      by blast
    then have "processed rgn (rgn_firstRow rgn + int j) (rgn_firstColumn rgn + int i) \<and>
       earlier (rgn_firstRow rgn + int j, rgn_firstColumn rgn + int i) (cfg_row c, cfg_column c) \<and>
       rendererNameOf m (rgn_firstRow rgn + int j) (rgn_firstColumn rgn + int i) \<noteq> []"
      unfolding processed_def by blast
    then show ?thesis by blast
  qed
  show ?thesis
  proof (intro conjI impI allI)
    assume "RendererPaint r cfg \<in> set (drawCells m rs rgn) \<and>
      rendererNameOf m (cfg_row cfg) (cfg_column cfg) = []"
    then show "\<exists>row' column'. processed rgn row' column' \<and>
           earlier (row', column') (cfg_row cfg, cfg_column cfg) \<and>
           rendererNameOf m row' column' \<noteq> []"
      using main by blast
  next
    fix r' cfg'
    assume first: "processed rgn row column \<and> rendererNameOf m row column = [] \<and>
      (\<forall>row' column'. processed rgn row' column' \<longrightarrow> \<not> earlier (row', column') (row, column))"
      and "RendererPaint r' cfg' \<in> set (drawCells m rs rgn)"
    show "\<not> (cfg_row cfg' = row \<and> cfg_column cfg' = column)"
    proof
      assume "cfg_row cfg' = row \<and> cfg_column cfg' = column"
      with first \<open>RendererPaint r' cfg' \<in> set (drawCells m rs rgn)\<close> main [of r' cfg']
      show False by auto
    qed
  qed
qed


theorem drawCells_empty_name_needs_earlier_lookup_witness:
  "emptyNameRenderers '''' = Some 7 \<and>
   paintedCells (drawCells emptyNameModel emptyNameRenderers emptyNameColumn) =
     [(1, 0, Fin 0, Fin 0), (2, 0, Fin 0, Fin 20)] \<and>
   (\<exists>row' column'. processed emptyNameColumn row' column' \<and> earlier (row', column') (2, 0) \<and>
      rendererNameOf emptyNameModel row' column' \<noteq> '''')"
proof -
  let ?cfg = "\<lparr>cfg_x = Fin 0, cfg_y = Fin 20, cfg_width = Fin 50, cfg_height = Fin 20,
                cfg_row = 2, cfg_column = 0, cfg_value = None, cfg_options = None\<rparr>
              :: (nat, nat) cellconfig"
  have cells: "drawCells emptyNameModel emptyNameRenderers emptyNameColumn =
     [RendererPaint 8 \<lparr>cfg_x = Fin 0, cfg_y = Fin 0, cfg_width = Fin 50, cfg_height = Fin 20,
                cfg_row = 1, cfg_column = 0, cfg_value = None, cfg_options = None\<rparr>,
      RendererPaint 7 ?cfg]"
    by code_simp
  have name: "rendererNameOf emptyNameModel (cfg_row ?cfg) (cfg_column ?cfg) = ''''"
    by (simp add: rendererNameOf_def emptyNameModel_def namedModel_def)
  have "RendererPaint 7 ?cfg \<in> set (drawCells emptyNameModel emptyNameRenderers emptyNameColumn)"
    by (simp add: cells)
  with name drawCells_empty_name_needs_earlier_lookup
    [of 7 ?cfg emptyNameModel emptyNameRenderers emptyNameColumn]
  have "\<exists>row' column'. processed emptyNameColumn row' column' \<and> earlier (row', column') (2, 0) \<and>
      rendererNameOf emptyNameModel row' column' \<noteq> ''''"
    by simp
  then show ?thesis
    by (simp add: cells emptyNameRenderers_def)
qed

section \<open>Properties of resizing\<close>

lemma onResize_ops:
  assumes vis: "isVisible s"
    and w: "w = round_half_up (if msg_width msg = - 1 then of_int (offsetWidth s) else msg_width msg)"
    and h: "h = round_half_up (if msg_height msg = - 1 then of_int (offsetHeight s) else msg_height msg)"
  shows "snd (onResize msg s) =
     [SetWidth Buffer w, SetHeight Buffer h]
     @ (if 0 < canvas_width s \<and> 0 < canvas_height s \<and> 0 < w \<and> 0 < h
        then [DrawImageAt Buffer Canvas (Fin 0) (Fin 0)] else [])
     @ [SetWidth Canvas w, SetHeight Canvas h]
     @ (if 0 < canvas_width s \<and> 0 < canvas_height s \<and> 0 < w \<and> 0 < h
        then [DrawImageAt Canvas Buffer (Fin 0) (Fin 0)] else [])
     @ (if canvas_width s < w
        then [PaintCall (num_of_int (canvas_width s)) (Fin 0) (num_of_int (w - canvas_width s)) (num_of_int h)]
        else [])
     @ (if canvas_height s < h
        then [PaintCall (Fin 0) (num_of_int (canvas_height s))
                (num_of_int (min w (canvas_width s))) (num_of_int (h - canvas_height s))]
        else [])"
    and "fst (onResize msg s) =
      s\<lparr>buffer_width := w, buffer_height := h, canvas_width := w, canvas_height := h\<rparr>"
  using vis unfolding w h
  by (auto simp add: onResize_def Let_def max_def min_def)

lemma covers_right_strip:
  "covers (num_of_int W) (Fin 0) (num_of_int k) (num_of_int h) (i, j) \<Longrightarrow> 0 \<le> k \<Longrightarrow> W \<le> i"
  by (auto simp add: num_of_int_def overlaps_def min_def split: if_splits)

lemma covers_bottom_strip:
  "covers (Fin 0) (num_of_int H) (num_of_int w) (num_of_int k) (i, j) \<Longrightarrow> 0 \<le> k \<Longrightarrow> H \<le> j"
  by (auto simp add: num_of_int_def overlaps_def min_def split: if_splits)

lemma run_append:
  "run content (es @ fs) \<sigma> = (case run content es \<sigma> of None \<Rightarrow> None | Some \<sigma>' \<Rightarrow> run content fs \<sigma>')"
  by (induction es arbitrary: \<sigma>) (auto split: option.splits)


lemma run_round_trip:
  assumes "bm_width (on_screen \<sigma>) = W" and "bm_height (on_screen \<sigma>) = H"
  shows "\<exists>\<sigma>'. run content
       [SetWidth Buffer w, SetHeight Buffer h, DrawImageAt Buffer Canvas (Fin 0) (Fin 0),
        SetWidth Canvas w, SetHeight Canvas h, DrawImageAt Canvas Buffer (Fin 0) (Fin 0)] \<sigma> = Some \<sigma>' \<and>
     bm_width (on_screen \<sigma>') = w \<and> bm_height (on_screen \<sigma>') = h \<and>
     bm_width (off_screen \<sigma>') = w \<and> bm_height (off_screen \<sigma>') = h \<and>
     (\<forall>i j. 0 \<le> i \<and> i < min W w \<and> 0 \<le> j \<and> j < min H h \<longrightarrow>
        bm_pixel (on_screen \<sigma>') (i, j) = bm_pixel (on_screen \<sigma>) (i, j) \<and>
        bm_pixel (off_screen \<sigma>') (i, j) = bm_pixel (on_screen \<sigma>) (i, j))"
  using assms
  by (simp add: bitmap_of_def set_bitmap_def drawImage_px_def inside_def over_def
      split: option.splits)

lemma run_strips:
  assumes "0 \<le> k" and "0 \<le> l"
  shows "\<exists>\<sigma>'. run content
       ((if a then [PaintCall (num_of_int W) (Fin 0) (num_of_int k) (num_of_int h)] else [])
        @ (if b then [PaintCall (Fin 0) (num_of_int H) (num_of_int w) (num_of_int l)] else [])) \<sigma>
       = Some \<sigma>' \<and>
     bm_width (on_screen \<sigma>') = bm_width (on_screen \<sigma>) \<and>
     bm_height (on_screen \<sigma>') = bm_height (on_screen \<sigma>) \<and>
     off_screen \<sigma>' = off_screen \<sigma> \<and>
     (\<forall>i j. i < W \<and> j < H \<longrightarrow> bm_pixel (on_screen \<sigma>') (i, j) = bm_pixel (on_screen \<sigma>) (i, j))"
  by (cases a; cases b)
     (auto simp add: inside_def dest: covers_right_strip [OF _ assms(1)]
        covers_bottom_strip [OF _ assms(2)])

text \<open>
  C8: a resize of a visible canvas from non-zero dimensions \<open>(W, H)\<close> to non-zero
  dimensions \<open>(w, h)\<close> sizes the buffer, copies the canvas into it, sizes the canvas and
  copies the buffer back, and then only paints. Afterwards every pixel of the area
  common to the old and the new surface, anchored at the top left, is the pixel that
  was there before, whatever the paint calls draw. When the surface grows from
  \<open>(W, H)\<close> to \<open>(W + k, H)\<close> the only paint call is on the new strip \<open>(W, 0, k, H)\<close>,
  and all pixels of the old \<open>W\<close> by \<open>H\<close> area are kept.
\<close>

theorem onResize_preserves_old_pixels:
  assumes vis: "isVisible s"
    and old: "0 < canvas_width s" "0 < canvas_height s"
    and surf: "bm_width (on_screen \<sigma>) = canvas_width s" "bm_height (on_screen \<sigma>) = canvas_height s"
    and w: "w = round_half_up (if msg_width msg = - 1 then of_int (offsetWidth s) else msg_width msg)"
    and h: "h = round_half_up (if msg_height msg = - 1 then of_int (offsetHeight s) else msg_height msg)"
    and new: "0 < w" "0 < h"
  shows "\<exists>\<sigma>' paints.
     snd (onResize msg s) =
       [SetWidth Buffer w, SetHeight Buffer h, DrawImageAt Buffer Canvas (Fin 0) (Fin 0),
        SetWidth Canvas w, SetHeight Canvas h, DrawImageAt Canvas Buffer (Fin 0) (Fin 0)] @ paints \<and>
     list_all is_PaintCall paints \<and>
     run content (snd (onResize msg s)) \<sigma> = Some \<sigma>' \<and>
     canvas_width (fst (onResize msg s)) = w \<and> canvas_height (fst (onResize msg s)) = h \<and>
     bm_width (on_screen \<sigma>') = w \<and> bm_height (on_screen \<sigma>') = h \<and>
     (\<forall>i j. 0 \<le> i \<and> i < min (canvas_width s) w \<and> 0 \<le> j \<and> j < min (canvas_height s) h \<longrightarrow>
        bm_pixel (on_screen \<sigma>') (i, j) = bm_pixel (on_screen \<sigma>) (i, j)) \<and>
     (canvas_width s < w \<and> h = canvas_height s \<longrightarrow>
        paints = [PaintCall (num_of_int (canvas_width s)) (Fin 0)
                    (num_of_int (w - canvas_width s)) (num_of_int (canvas_height s))])"
proof -
  define trip where "trip =
       [SetWidth Buffer w, SetHeight Buffer h, DrawImageAt Buffer Canvas (Fin 0) (Fin 0),
        SetWidth Canvas w, SetHeight Canvas h, DrawImageAt Canvas Buffer (Fin 0) (Fin 0)]"
  define paints where "paints =
       (if canvas_width s < w
        then [PaintCall (num_of_int (canvas_width s)) (Fin 0) (num_of_int (w - canvas_width s)) (num_of_int h)]
        else [])
     @ (if canvas_height s < h
        then [PaintCall (Fin 0) (num_of_int (canvas_height s))
                (num_of_int (min w (canvas_width s))) (num_of_int (h - canvas_height s))]
        else [])"
  have ops: "snd (onResize msg s) = trip @ paints"
    using onResize_ops(1) [OF vis w h] old new by (simp add: trip_def paints_def)
  have st: "canvas_width (fst (onResize msg s)) = w" "canvas_height (fst (onResize msg s)) = h"
    using onResize_ops(2) [OF vis w h] by simp_all
  have kinds: "list_all is_PaintCall paints"
    by (simp add: paints_def)
  have horiz: "canvas_width s < w \<and> h = canvas_height s \<longrightarrow>
        paints = [PaintCall (num_of_int (canvas_width s)) (Fin 0)
                    (num_of_int (w - canvas_width s)) (num_of_int (canvas_height s))]"
    by (simp add: paints_def)
  from run_round_trip [OF surf, of content w h] obtain \<sigma>1 where
    r1: "run content trip \<sigma> = Some \<sigma>1"
    and d1: "bm_width (on_screen \<sigma>1) = w" "bm_height (on_screen \<sigma>1) = h"
    and p1: "\<forall>i j. 0 \<le> i \<and> i < min (canvas_width s) w \<and> 0 \<le> j \<and> j < min (canvas_height s) h \<longrightarrow>
        bm_pixel (on_screen \<sigma>1) (i, j) = bm_pixel (on_screen \<sigma>) (i, j)"
    unfolding trip_def by blast
  have "0 \<le> max 0 (w - canvas_width s)" "0 \<le> max 0 (h - canvas_height s)" by simp_all
  have "\<exists>\<sigma>'. run content paints \<sigma>1 = Some \<sigma>' \<and>
     bm_width (on_screen \<sigma>') = bm_width (on_screen \<sigma>1) \<and>
     bm_height (on_screen \<sigma>') = bm_height (on_screen \<sigma>1) \<and>
     off_screen \<sigma>' = off_screen \<sigma>1 \<and>
     (\<forall>i j. i < canvas_width s \<and> j < canvas_height s \<longrightarrow>
        bm_pixel (on_screen \<sigma>') (i, j) = bm_pixel (on_screen \<sigma>1) (i, j))"
  proof (cases "canvas_width s < w"; cases "canvas_height s < h")
    assume "canvas_width s < w" "canvas_height s < h"
    then show ?thesis
      unfolding paints_def
      using run_strips [of "w - canvas_width s" "h - canvas_height s" content True "canvas_width s" h
          True "canvas_height s" "min w (canvas_width s)" \<sigma>1]
      by simp
  next
    assume "canvas_width s < w" "\<not> canvas_height s < h"
    then show ?thesis
      unfolding paints_def
      using run_strips [of "w - canvas_width s" 0 content True "canvas_width s" h
          False "canvas_height s" "min w (canvas_width s)" \<sigma>1]
      by simp
  next
    assume "\<not> canvas_width s < w" "canvas_height s < h"
    then show ?thesis
      unfolding paints_def
      using run_strips [of 0 "h - canvas_height s" content False "canvas_width s" h
          True "canvas_height s" "min w (canvas_width s)" \<sigma>1]
      by simp
  next
    assume "\<not> canvas_width s < w" "\<not> canvas_height s < h"
    then show ?thesis
      unfolding paints_def by simp
  qed
  then obtain \<sigma>2 where r2: "run content paints \<sigma>1 = Some \<sigma>2"
    and d2: "bm_width (on_screen \<sigma>2) = bm_width (on_screen \<sigma>1)"
      "bm_height (on_screen \<sigma>2) = bm_height (on_screen \<sigma>1)"
    and p2: "\<forall>i j. i < canvas_width s \<and> j < canvas_height s \<longrightarrow>
        bm_pixel (on_screen \<sigma>2) (i, j) = bm_pixel (on_screen \<sigma>1) (i, j)"
    by blast
  have run: "run content (snd (onResize msg s)) \<sigma> = Some \<sigma>2"
    by (simp add: ops run_append r1 r2)
  have dims: "bm_width (on_screen \<sigma>2) = w" "bm_height (on_screen \<sigma>2) = h"
    using d1 d2 by simp_all
  have keep: "\<forall>i j. 0 \<le> i \<and> i < min (canvas_width s) w \<and> 0 \<le> j \<and> j < min (canvas_height s) h \<longrightarrow>
        bm_pixel (on_screen \<sigma>2) (i, j) = bm_pixel (on_screen \<sigma>) (i, j)"
    using p1 p2 by simp
  show ?thesis
    apply (rule exI [of _ \<sigma>2], rule exI [of _ paints])
    apply (intro conjI)
    apply (fact ops [unfolded trip_def] kinds run st dims keep horiz)+
    done
qed


theorem onResize_preserves_old_pixels_witness:
  "isVisible exampleCanvas \<and> canvas_width exampleCanvas = 100 \<and> canvas_height exampleCanvas = 60 \<and>
   round_half_up (1304 / 10) = 130 \<and>
   snd (onResize \<lparr>msg_width = 1304 / 10, msg_height = 60\<rparr> exampleCanvas) =
     [SetWidth Buffer 130, SetHeight Buffer 60, DrawImageAt Buffer Canvas (Fin 0) (Fin 0),
      SetWidth Canvas 130, SetHeight Canvas 60, DrawImageAt Canvas Buffer (Fin 0) (Fin 0),
      PaintCall (Fin 100) (Fin 0) (Fin 30) (Fin 60)] \<and>
   (\<exists>\<sigma>'. run noContent (snd (onResize \<lparr>msg_width = 1304 / 10, msg_height = 60\<rparr> exampleCanvas))
           paintedSurfaces = Some \<sigma>' \<and>
         bm_pixel (on_screen \<sigma>') (99, 59) = Some 1)"
proof -
  have pre: "isVisible exampleCanvas" "0 < canvas_width exampleCanvas" "0 < canvas_height exampleCanvas"
    "bm_width (on_screen paintedSurfaces) = canvas_width exampleCanvas"
    "bm_height (on_screen paintedSurfaces) = canvas_height exampleCanvas"
    "130 = round_half_up (if msg_width \<lparr>msg_width = 1304 / 10, msg_height = 60\<rparr> = - 1
        then of_int (offsetWidth exampleCanvas)
        else msg_width \<lparr>msg_width = 1304 / 10, msg_height = 60\<rparr>)"
    "60 = round_half_up (if msg_height \<lparr>msg_width = 1304 / 10, msg_height = 60\<rparr> = - 1
        then of_int (offsetHeight exampleCanvas)
        else msg_height \<lparr>msg_width = 1304 / 10, msg_height = 60\<rparr>)"
    "(0::int) < 130" "(0::int) < 60"
    by (simp_all add: exampleCanvas_def paintedSurfaces_def round_half_up_def)
  have facts: "canvas_width exampleCanvas = 100" "canvas_height exampleCanvas = 60"
    "round_half_up (1304 / 10) = 130"
    "bm_pixel (on_screen paintedSurfaces) (99, 59) = Some 1"
    by (simp_all add: exampleCanvas_def paintedSurfaces_def round_half_up_def)
  from onResize_preserves_old_pixels [OF pre, of noContent]
  obtain \<sigma>' paints where
    "snd (onResize \<lparr>msg_width = 1304 / 10, msg_height = 60\<rparr> exampleCanvas) =
       [SetWidth Buffer 130, SetHeight Buffer 60, DrawImageAt Buffer Canvas (Fin 0) (Fin 0),
        SetWidth Canvas 130, SetHeight Canvas 60, DrawImageAt Canvas Buffer (Fin 0) (Fin 0)] @ paints"
    "run noContent (snd (onResize \<lparr>msg_width = 1304 / 10, msg_height = 60\<rparr> exampleCanvas))
       paintedSurfaces = Some \<sigma>'"
    "\<forall>i j. 0 \<le> i \<and> i < min (canvas_width exampleCanvas) 130 \<and>
           0 \<le> j \<and> j < min (canvas_height exampleCanvas) 60 \<longrightarrow>
        bm_pixel (on_screen \<sigma>') (i, j) = bm_pixel (on_screen paintedSurfaces) (i, j)"
    "canvas_width exampleCanvas < 130 \<and> 60 = canvas_height exampleCanvas \<longrightarrow>
        paints = [PaintCall (num_of_int (canvas_width exampleCanvas)) (Fin 0)
                    (num_of_int (130 - canvas_width exampleCanvas))
                    (num_of_int (canvas_height exampleCanvas))]"
    by blast
  then show ?thesis
    using pre(1) facts by (auto simp add: num_of_int_def)
qed

text \<open>
  C9, as the code has it: a resize message for a visible canvas whose rounded
  dimensions are the current ones leaves the state of the widget as it is and calls
  \<open>_paint\<close> for nothing; the two bitmaps keep their dimensions and the on-screen
  canvas keeps its pixels. The handler has no early return for this case: it assigns
  the dimensions again and goes through the buffer, whose pixels are afterwards a copy
  of the on-screen pixels.
\<close>

theorem onResize_same_size:
  assumes vis: "isVisible s"
    and buf: "buffer_width s = canvas_width s" "buffer_height s = canvas_height s"
    and surf: "bm_width (on_screen \<sigma>) = canvas_width s" "bm_height (on_screen \<sigma>) = canvas_height s"
    and w: "round_half_up (if msg_width msg = - 1 then of_int (offsetWidth s) else msg_width msg)
              = canvas_width s"
    and h: "round_half_up (if msg_height msg = - 1 then of_int (offsetHeight s) else msg_height msg)
              = canvas_height s"
  shows "fst (onResize msg s) = s \<and>
     filter is_PaintCall (snd (onResize msg s)) = [] \<and>
     (\<exists>\<sigma>'. run content (snd (onResize msg s)) \<sigma> = Some \<sigma>' \<and>
        bm_width (on_screen \<sigma>') = canvas_width s \<and> bm_height (on_screen \<sigma>') = canvas_height s \<and>
        bm_width (off_screen \<sigma>') = canvas_width s \<and> bm_height (off_screen \<sigma>') = canvas_height s \<and>
        (\<forall>i j. 0 \<le> i \<and> i < canvas_width s \<and> 0 \<le> j \<and> j < canvas_height s \<longrightarrow>
           bm_pixel (on_screen \<sigma>') (i, j) = bm_pixel (on_screen \<sigma>) (i, j) \<and>
           bm_pixel (off_screen \<sigma>') (i, j) = bm_pixel (on_screen \<sigma>) (i, j))) \<and>
     snd (onResize msg s) =
       [SetWidth Buffer (canvas_width s), SetHeight Buffer (canvas_height s)]
       @ (if 0 < canvas_width s \<and> 0 < canvas_height s
          then [DrawImageAt Buffer Canvas (Fin 0) (Fin 0)] else [])
       @ [SetWidth Canvas (canvas_width s), SetHeight Canvas (canvas_height s)]
       @ (if 0 < canvas_width s \<and> 0 < canvas_height s
          then [DrawImageAt Canvas Buffer (Fin 0) (Fin 0)] else [])"
proof -
  note ops = onResize_ops [OF vis w [symmetric] h [symmetric]]
  have st: "fst (onResize msg s) = s"
    using ops(2) buf by simp
  have oplist: "snd (onResize msg s) =
       [SetWidth Buffer (canvas_width s), SetHeight Buffer (canvas_height s)]
       @ (if 0 < canvas_width s \<and> 0 < canvas_height s
          then [DrawImageAt Buffer Canvas (Fin 0) (Fin 0)] else [])
       @ [SetWidth Canvas (canvas_width s), SetHeight Canvas (canvas_height s)]
       @ (if 0 < canvas_width s \<and> 0 < canvas_height s
          then [DrawImageAt Canvas Buffer (Fin 0) (Fin 0)] else [])"
    using ops(1) by simp
  have main: "fst (onResize msg s) = s \<and>
     filter is_PaintCall (snd (onResize msg s)) = [] \<and>
     (\<exists>\<sigma>'. run content (snd (onResize msg s)) \<sigma> = Some \<sigma>' \<and>
        bm_width (on_screen \<sigma>') = canvas_width s \<and> bm_height (on_screen \<sigma>') = canvas_height s \<and>
        bm_width (off_screen \<sigma>') = canvas_width s \<and> bm_height (off_screen \<sigma>') = canvas_height s \<and>
        (\<forall>i j. 0 \<le> i \<and> i < canvas_width s \<and> 0 \<le> j \<and> j < canvas_height s \<longrightarrow>
           bm_pixel (on_screen \<sigma>') (i, j) = bm_pixel (on_screen \<sigma>) (i, j) \<and>
           bm_pixel (off_screen \<sigma>') (i, j) = bm_pixel (on_screen \<sigma>) (i, j)))"
  proof (cases "0 < canvas_width s \<and> 0 < canvas_height s")
    case True
    then have list: "snd (onResize msg s) =
       [SetWidth Buffer (canvas_width s), SetHeight Buffer (canvas_height s),
        DrawImageAt Buffer Canvas (Fin 0) (Fin 0),
        SetWidth Canvas (canvas_width s), SetHeight Canvas (canvas_height s),
        DrawImageAt Canvas Buffer (Fin 0) (Fin 0)]"
      using ops(1) by simp
    from run_round_trip [OF surf, of content "canvas_width s" "canvas_height s"]
    show ?thesis
      unfolding list using st by simp
  next
    case False
    then have list: "snd (onResize msg s) =
       [SetWidth Buffer (canvas_width s), SetHeight Buffer (canvas_height s),
        SetWidth Canvas (canvas_width s), SetHeight Canvas (canvas_height s)]"
      using ops(1) by auto
    from False show ?thesis
      unfolding list using st
      by (auto simp add: bitmap_of_def set_bitmap_def)
  qed
  from main oplist show ?thesis
    by (elim conjE, intro conjI) assumption+
qed

theorem onResize_same_size_witness:
  "round_half_up 100 = canvas_width exampleCanvas \<and> round_half_up 60 = canvas_height exampleCanvas \<and>
   fst (onResize \<lparr>msg_width = 100, msg_height = 60\<rparr> exampleCanvas) = exampleCanvas \<and>
   filter is_PaintCall (snd (onResize \<lparr>msg_width = 100, msg_height = 60\<rparr> exampleCanvas)) = []"
proof -
  have pre: "isVisible exampleCanvas"
    "buffer_width exampleCanvas = canvas_width exampleCanvas"
    "buffer_height exampleCanvas = canvas_height exampleCanvas"
    "bm_width (on_screen paintedSurfaces) = canvas_width exampleCanvas"
    "bm_height (on_screen paintedSurfaces) = canvas_height exampleCanvas"
    "round_half_up (if msg_width \<lparr>msg_width = 100, msg_height = 60\<rparr> = - 1
        then of_int (offsetWidth exampleCanvas)
        else msg_width \<lparr>msg_width = 100, msg_height = 60\<rparr>) = canvas_width exampleCanvas"
    "round_half_up (if msg_height \<lparr>msg_width = 100, msg_height = 60\<rparr> = - 1
        then of_int (offsetHeight exampleCanvas)
        else msg_height \<lparr>msg_width = 100, msg_height = 60\<rparr>) = canvas_height exampleCanvas"
    by (simp_all add: exampleCanvas_def paintedSurfaces_def round_half_up_def)
  have "round_half_up 100 = canvas_width exampleCanvas" "round_half_up 60 = canvas_height exampleCanvas"
    by (simp_all add: exampleCanvas_def round_half_up_def)
  with onResize_same_size [OF pre, of noContent] show ?thesis by simp
qed

text \<open>
  C9 as it is stated fails: resizing the painted canvas of 100 by 60 pixels to 100 by
  60 is not a no-op. Both elements are assigned their dimensions and the canvas is
  drawn into the buffer and back; the pixel \<open>(0, 0)\<close> of the buffer, blank before, holds
  the colour of the canvas afterwards.
\<close>

theorem onResize_same_size_overwrites_buffer:
  "canvas_width exampleCanvas = 100 \<and> canvas_height exampleCanvas = 60 \<and>
   snd (onResize \<lparr>msg_width = 100, msg_height = 60\<rparr> exampleCanvas) =
     [SetWidth Buffer 100, SetHeight Buffer 60, DrawImageAt Buffer Canvas (Fin 0) (Fin 0),
      SetWidth Canvas 100, SetHeight Canvas 60, DrawImageAt Canvas Buffer (Fin 0) (Fin 0)] \<and>
   bm_pixel (off_screen paintedSurfaces) (0, 0) = None \<and>
   map_option (\<lambda>\<sigma>. bm_pixel (off_screen \<sigma>) (0, 0))
     (run noContent (snd (onResize \<lparr>msg_width = 100, msg_height = 60\<rparr> exampleCanvas))
        paintedSurfaces) = Some (Some 1)"
  by code_simp

end
